theory Spec2Isabelle
  imports Complex_Main "HOL-Library.Sublist" "HOL-Library.Char_ord" "HOL-Library.List_Lexorder"
begin

section \<open>Data model\<close>

text \<open>
  The chatbot of \<^verbatim>\<open>custom_chatbot.py\<close> answers questions over a table of company
  financials. A Python \<^verbatim>\<open>str\<close> is modelled as a \<open>string\<close>, each \<open>char\<close> being the code
  point of that number (text of code points below 256), a Python \<^verbatim>\<open>int\<close> as \<open>int\<close>,
  and a finite Python \<^verbatim>\<open>float\<close> as the rational number it denotes (\<open>rat\<close>), float
  arithmetic rounding its exact result to the nearest double; NaN and the infinities are
  outside the model. Every place where the Python can raise is a branch returning \<open>Inl\<close>
  of a \<open>py_error\<close>.
\<close>

datatype py_error = IndexError | KeyError | ValueError | ZeroDivisionError

text \<open>
  One \<^verbatim>\<open>clean\<close> dict of \<^verbatim>\<open>load_data\<close>: the keys \<^verbatim>\<open>Company\<close>,
  \<^verbatim>\<open>Fiscal Year (filename)\<close>, \<^verbatim>\<open>File\<close> and the five metric columns, whose
  values are the floats that \<^verbatim>\<open>float(row[metric])\<close> made of the fields of the file.
\<close>

record row =
  Company :: string
  Fiscal_Year :: int
  File :: string
  Total_Revenue :: rat
  Net_Income :: rat
  Total_Assets :: rat
  Total_Liabilities :: rat
  Operating_Cash_Flow :: rat

record BotContext =
  rows :: "row list"
  companies :: "string list"
  years :: "int list"

text \<open>\<^verbatim>\<open>METRIC_ALIASES\<close>, in the insertion order of the dict literal.\<close>

definition METRIC_ALIASES :: "(string \<times> string) list" where
  "METRIC_ALIASES =
    [(''revenue'', ''Total Revenue (USD millions)''),
     (''total revenue'', ''Total Revenue (USD millions)''),
     (''income'', ''Net Income (USD millions)''),
     (''net income'', ''Net Income (USD millions)''),
     (''profit'', ''Net Income (USD millions)''),
     (''assets'', ''Total Assets (USD millions)''),
     (''total assets'', ''Total Assets (USD millions)''),
     (''liabilities'', ''Total Liabilities (USD millions)''),
     (''total liabilities'', ''Total Liabilities (USD millions)''),
     (''debt'', ''Total Liabilities (USD millions)''),
     (''cash flow'', ''Operating Cash Flow (USD millions)''),
     (''operating cash flow'', ''Operating Cash Flow (USD millions)''),
     (''cfo'', ''Operating Cash Flow (USD millions)'')]"

text \<open>\<^verbatim>\<open>float(r[metric])\<close>: a key that is not a metric column raises \<^verbatim>\<open>KeyError\<close>.\<close>

definition row_metric :: "row \<Rightarrow> string \<Rightarrow> py_error + rat" where
  "row_metric r metric =
    (if metric = ''Total Revenue (USD millions)'' then Inr (Total_Revenue r)
     else if metric = ''Net Income (USD millions)'' then Inr (Net_Income r)
     else if metric = ''Total Assets (USD millions)'' then Inr (Total_Assets r)
     else if metric = ''Total Liabilities (USD millions)'' then Inr (Total_Liabilities r)
     else if metric = ''Operating Cash Flow (USD millions)'' then Inr (Operating_Cash_Flow r)
     else Inl KeyError)"

section \<open>Python built-ins used by the chatbot\<close>

subsection \<open>Strings\<close>

text \<open>\<^verbatim>\<open>str.isspace\<close> and the regex class \<^verbatim>\<open>\s\<close> below 256: TAB, LF, VT, FF, CR,
  the separators 0x1C to 0x1F, the blank, NEL (0x85) and the no-break space (0xA0).\<close>

definition is_space :: "char \<Rightarrow> bool" where
  "is_space c \<longleftrightarrow> (of_char c :: int) \<in> {9, 10, 11, 12, 13, 28, 29, 30, 31, 32, 133, 160}"

text \<open>The regex class \<^verbatim>\<open>\d\<close> below 256: the ten ASCII digits.\<close>

definition is_digit :: "char \<Rightarrow> bool" where
  "is_digit c \<longleftrightarrow> (48::int) \<le> of_char c \<and> of_char c \<le> (57::int)"

text \<open>\<^verbatim>\<open>str.lower\<close> below 256: the capitals A to Z and 0xC0 to 0xDE, the
  multiplication sign 0xD7 apart, move up by 32.\<close>

definition lower_char :: "char \<Rightarrow> char" where
  "lower_char c =
    (if ((65::int) \<le> of_char c \<and> of_char c \<le> (90::int)) \<or>
        ((192::int) \<le> of_char c \<and> of_char c \<le> (222::int) \<and> of_char c \<noteq> (215::int))
     then char_of (of_char c + (32::int)) else c)"

definition lower :: "string \<Rightarrow> string" where
  "lower s = map lower_char s"

text \<open>\<^verbatim>\<open>str.strip\<close>.\<close>

definition strip :: "string \<Rightarrow> string" where
  "strip s = rev (dropWhile is_space (rev (dropWhile is_space s)))"

text \<open>\<^verbatim>\<open>re.sub(r"\s+", " ", s)\<close>: every maximal run of whitespace becomes one blank.\<close>

function sub_spaces :: "string \<Rightarrow> string" where
  "sub_spaces [] = []"
| "sub_spaces (c # cs) =
    (if is_space c then CHR '' '' # sub_spaces (dropWhile is_space cs) else c # sub_spaces cs)"
  by pat_completeness auto
termination
  by (relation "measure length") (auto simp: length_dropWhile_le less_Suc_eq_le)

text \<open>\<^verbatim>\<open>sep.join(xs)\<close>.\<close>

fun join :: "string \<Rightarrow> string list \<Rightarrow> string" where
  "join sep [] = []"
| "join sep [x] = x"
| "join sep (x # y # ys) = x @ sep @ join sep (y # ys)"

subsection \<open>Numbers and their text\<close>

definition digit_char :: "int \<Rightarrow> char" where
  "digit_char d = char_of (48 + d)"

definition digit_val :: "char \<Rightarrow> int" where
  "digit_val c = of_char c - 48"

text \<open>The decimal digits of a non-negative integer, and \<^verbatim>\<open>str(i)\<close> for any integer.\<close>

function digits_of :: "int \<Rightarrow> string" where
  "digits_of n =
    (if n < 10 then [digit_char n] else digits_of (n div 10) @ [digit_char (n mod 10)])"
  by pat_completeness auto
termination
  by (relation "measure nat") auto

declare digits_of.simps [simp del]

definition str_int :: "int \<Rightarrow> string" where
  "str_int i = (if i < 0 then CHR ''-'' # digits_of (- i) else digits_of i)"

text \<open>\<^verbatim>\<open>int(s)\<close> on a string of decimal digits (the only strings the chatbot converts).\<close>

definition int_of_digits :: "string \<Rightarrow> int" where
  "int_of_digits s = foldl (\<lambda>acc c. 10 * acc + digit_val c) 0 s"

subsection \<open>The regular expression \<^verbatim>\<open>20\d{2}\<close>\<close>

definition is_20dd :: "char \<Rightarrow> char \<Rightarrow> char \<Rightarrow> char \<Rightarrow> bool" where
  "is_20dd a b c d \<longleftrightarrow> a = CHR ''2'' \<and> b = CHR ''0'' \<and> is_digit c \<and> is_digit d"

text \<open>\<^verbatim>\<open>re.search(r"(20\d{2})", s)\<close>: the leftmost match, if any.\<close>

fun search_20dd :: "string \<Rightarrow> string option" where
  "search_20dd (a # b # c # d # cs) =
    (if is_20dd a b c d then Some [a, b, c, d] else search_20dd (b # c # d # cs))"
| "search_20dd _ = None"

text \<open>\<^verbatim>\<open>re.findall(r"20\d{2}", s)\<close>: the matches from left to right, the scan going on
  behind each match (matches do not overlap).\<close>

fun findall_20dd :: "string \<Rightarrow> string list" where
  "findall_20dd (a # b # c # d # cs) =
    (if is_20dd a b c d then [a, b, c, d] # findall_20dd cs else findall_20dd (b # c # d # cs))"
| "findall_20dd _ = []"

subsection \<open>Sorting and indexing\<close>

text \<open>\<^verbatim>\<open>sorted(xs, key=key, reverse=True)\<close>: descending by key, and stable (elements with
  equal keys keep their order); CPython reverses, sorts stably, and reverses again.\<close>

definition sorted_reverse :: "('a \<Rightarrow> 'k::linorder) \<Rightarrow> 'a list \<Rightarrow> 'a list" where
  "sorted_reverse key xs = rev (sort_key key (rev xs))"

text \<open>A loop or comprehension whose body may raise stops at the first error.\<close>

fun map_err :: "('a \<Rightarrow> py_error + 'b) \<Rightarrow> 'a list \<Rightarrow> py_error + 'b list" where
  "map_err f [] = Inr []"
| "map_err f (x # xs) =
    (case f x of Inl e \<Rightarrow> Inl e
     | Inr y \<Rightarrow> (case map_err f xs of Inl e \<Rightarrow> Inl e | Inr ys \<Rightarrow> Inr (y # ys)))"

text \<open>\<^verbatim>\<open>sorted\<close> with a key function that may raise: the keys are computed first.\<close>

definition sorted_reverse_by :: "('a \<Rightarrow> py_error + 'k::linorder) \<Rightarrow> 'a list \<Rightarrow> py_error + 'a list" where
  "sorted_reverse_by key xs =
    (case map_err (\<lambda>x. case key x of Inl e \<Rightarrow> Inl e | Inr k \<Rightarrow> Inr (k, x)) xs of
       Inl e \<Rightarrow> Inl e
     | Inr ks \<Rightarrow> Inr (map snd (sorted_reverse fst ks)))"

text \<open>\<^verbatim>\<open>xs[0]\<close>, \<^verbatim>\<open>xs[-1]\<close> and \<^verbatim>\<open>max(xs)\<close>: all three raise on the empty list.\<close>

definition first :: "'a list \<Rightarrow> py_error + 'a" where
  "first xs = (case xs of [] \<Rightarrow> Inl IndexError | x # _ \<Rightarrow> Inr x)"

definition last_item :: "'a list \<Rightarrow> py_error + 'a" where
  "last_item xs = (if xs = [] then Inl IndexError else Inr (last xs))"

definition py_max :: "int list \<Rightarrow> py_error + int" where
  "py_max xs = (case xs of [] \<Rightarrow> Inl ValueError | x # ys \<Rightarrow> Inr (fold max ys x))"

subsection \<open>Float formatting\<close>

text \<open>Formatting with \<^verbatim>\<open>.0f\<close> and \<^verbatim>\<open>.2f\<close> rounds the exact value to the nearest
  multiple of the last place, a tie going to the even neighbour.\<close>

definition round_half_even :: "rat \<Rightarrow> int" where
  "round_half_even v =
    (let f = \<lfloor>v\<rfloor>; d = v - of_int f
     in if d < 1 / 2 then f else if 1 / 2 < d then f + 1 else if even f then f else f + 1)"

text \<open>The thousands separator of the format option \<^verbatim>\<open>,\<close>: a comma before every
  group of three digits counted from the right.\<close>

function group_thousands :: "string \<Rightarrow> string" where
  "group_thousands ds =
    (if length ds \<le> 3 then ds
     else group_thousands (take (length ds - 3) ds) @ CHR '','' # drop (length ds - 3) ds)"
  by pat_completeness auto
termination
  by (relation "measure length") auto

declare group_thousands.simps [simp del]

text \<open>\<^verbatim>\<open>f"{v:,.0f}"\<close>; a negative value keeps its sign even when it rounds to zero.\<close>

definition format_comma_0f :: "rat \<Rightarrow> string" where
  "format_comma_0f v =
    (if v < 0 then ''-'' else '''') @ group_thousands (digits_of \<bar>round_half_even v\<bar>)"

text \<open>\<^verbatim>\<open>f"{v:.2f}"\<close>.\<close>

definition format_2f :: "rat \<Rightarrow> string" where
  "format_2f v =
    (let n = \<bar>round_half_even (v * 100)\<bar>
     in (if v < 0 then ''-'' else '''') @ digits_of (n div 100) @ ''.'' @
        [digit_char (n mod 100 div 10), digit_char (n mod 10)])"

subsection \<open>Float arithmetic\<close>

text \<open>A finite double is the rational number it denotes. An arithmetic operation on
  doubles returns the exact result rounded to the nearest double, a tie going to the even
  significand: 53 significant bits, the unit in the last place being \<open>2 powi (e - 52)\<close> for
  a result between \<open>2 powi e\<close> and \<open>2 powi (e + 1)\<close>, and \<open>2 powi (- 1074)\<close> below
  \<open>2 powi (- 1022)\<close>. A result that rounds to \<open>2 powi 1024\<close> or beyond is the infinity in
  Python, which is no rational: such results, like NaN, are outside the model.\<close>

function bit_length :: "int \<Rightarrow> int" where
  "bit_length n = (if n \<le> 0 then 0 else 1 + bit_length (n div 2))"
  by pat_completeness auto
termination
  by (relation "measure nat") auto

declare bit_length.simps [simp del]

function pow2 :: "int \<Rightarrow> rat" where
  "pow2 e = (if e < 0 then pow2 (e + 1) / 2 else if e = 0 then 1 else 2 * pow2 (e - 1))"
  by pat_completeness auto
termination
  by (relation "measure (\<lambda>e. nat \<bar>e\<bar>)") auto

declare pow2.simps [simp del]

text \<open>The binary exponent \<open>e\<close> of a non-zero number: \<open>2 powi e \<le> \<bar>x\<bar> < 2 powi (e + 1)\<close>.\<close>

definition exponent_of :: "rat \<Rightarrow> int" where
  "exponent_of x =
    (let k = bit_length (fst (quotient_of \<bar>x\<bar>)) - bit_length (snd (quotient_of \<bar>x\<bar>))
     in if pow2 k \<le> \<bar>x\<bar> then k else k - 1)"

definition round_double :: "rat \<Rightarrow> rat" where
  "round_double x =
    (if x = 0 then 0
     else (let ulp = pow2 (max (exponent_of x) (- 1022) - 52)
           in of_int (round_half_even (x / ulp)) * ulp))"

text \<open>\<^verbatim>\<open>a - b\<close>, \<^verbatim>\<open>a * b\<close> and \<^verbatim>\<open>a / b\<close> on floats; the division raises on a zero
  divisor.\<close>

definition float_sub :: "rat \<Rightarrow> rat \<Rightarrow> rat" where
  "float_sub a b = round_double (a - b)"

definition float_mul :: "rat \<Rightarrow> rat \<Rightarrow> rat" where
  "float_mul a b = round_double (a * b)"

definition float_div :: "rat \<Rightarrow> rat \<Rightarrow> py_error + rat" where
  "float_div a b = (if b = 0 then Inl ZeroDivisionError else Inr (round_double (a / b)))"

section \<open>The chatbot\<close>

text \<open>\<^verbatim>\<open>load_data\<close> after the CSV file has been read: the argument is the list of
  \<^verbatim>\<open>clean\<close> dicts in file order. \<^verbatim>\<open>sorted({...})\<close> is the sorted list of the distinct
  values.\<close>

definition load_data :: "row list \<Rightarrow> BotContext" where
  "load_data rs =
    \<lparr>rows = rs,
     companies = sort (remdups (map Company rs)),
     years = sort (remdups (map Fiscal_Year rs))\<rparr>"

definition normalize_text :: "string \<Rightarrow> string" where
  "normalize_text s = sub_spaces (lower (strip s))"

definition find_company :: "string \<Rightarrow> string list \<Rightarrow> string option" where
  "find_company query cs =
    (let q = normalize_text query in List.find (\<lambda>company. sublist (lower company) q) cs)"

definition find_year :: "string \<Rightarrow> int list \<Rightarrow> int option" where
  "find_year query ys =
    (case search_20dd query of
       None \<Rightarrow> None
     | Some g \<Rightarrow> (let year = int_of_digits g in if year \<in> set ys then Some year else None))"

definition find_metric :: "string \<Rightarrow> string option" where
  "find_metric query =
    (let q = normalize_text query
     in map_option snd
          (List.find (\<lambda>x. sublist (fst x) q) (sorted_reverse (\<lambda>x. length (fst x)) METRIC_ALIASES)))"

definition money :: "rat \<Rightarrow> string" where
  "money v = ''$'' @ format_comma_0f v @ ''M''"

definition get_row :: "BotContext \<Rightarrow> string \<Rightarrow> int \<Rightarrow> row option" where
  "get_row ctx company year =
    List.find (\<lambda>r. lower (Company r) = lower company \<and> Fiscal_Year r = year) (rows ctx)"

definition help_text :: "BotContext \<Rightarrow> string" where
  "help_text ctx =
    ''Custom Financial Chatbot'' @ [CHR 0x0A] @
    ''- Companies: '' @ join '', '' (companies ctx) @ [CHR 0x0A] @
    ''- Years: '' @ join '', '' (map str_int (years ctx)) @ [CHR 0x0A, CHR 0x0A] @
    ''Examples:'' @ [CHR 0x0A] @
    ''- Apple revenue 2025'' @ [CHR 0x0A] @
    ''- compare net income 2024'' @ [CHR 0x0A] @
    ''- top operating cash flow 2025'' @ [CHR 0x0A] @
    ''- growth of Tesla revenue from 2023 to 2025'' @ [CHR 0x0A] @
    ''- Microsoft summary'' @ [CHR 0x0A] @
    ''- list companies'' @ [CHR 0x0A] @
    ''- list years'' @ [CHR 0x0A] @
    ''- exit''"

text \<open>Truth value of an optional string or integer (\<^verbatim>\<open>None\<close>, the empty string and
  zero are false).\<close>

definition truthy_str :: "string option \<Rightarrow> bool" where
  "truthy_str s \<longleftrightarrow> (case s of None \<Rightarrow> False | Some t \<Rightarrow> t \<noteq> [])"

definition truthy_int :: "int option \<Rightarrow> bool" where
  "truthy_int y \<longleftrightarrow> (case y of None \<Rightarrow> False | Some n \<Rightarrow> n \<noteq> 0)"

text \<open>The branch of \<^verbatim>\<open>handle_query\<close> for \<^verbatim>\<open>"top"\<close> and \<^verbatim>\<open>"highest"\<close> (lines 108 to 115).\<close>

definition ranking :: "BotContext \<Rightarrow> string \<Rightarrow> py_error + string" where
  "ranking ctx q =
    (let metric = find_metric q; year = find_year q (years ctx)
     in if \<not> truthy_str metric \<or> \<not> truthy_int year
        then Inr ''Please specify both metric and year. Example: top revenue in 2025''
        else
          (case (metric, year) of
             (Some m, Some y) \<Rightarrow>
               (let yearly = filter (\<lambda>r. Fiscal_Year r = y) (rows ctx)
                in case sorted_reverse_by (\<lambda>r. row_metric r m) yearly of
                     Inl e \<Rightarrow> Inl e
                   | Inr srt \<Rightarrow>
                       (case first srt of
                          Inl e \<Rightarrow> Inl e
                        | Inr top_row \<Rightarrow>
                            (case row_metric top_row m of
                               Inl e \<Rightarrow> Inl e
                             | Inr v \<Rightarrow>
                                 Inr (''Top '' @ m @ '' in '' @ str_int y @ '': '' @
                                      Company top_row @ '' with '' @ money v @ ''.''))))
           | _ \<Rightarrow> Inl ValueError))"

text \<open>The branch for \<^verbatim>\<open>"compare"\<close> (lines 117 to 127).\<close>

definition comparison :: "BotContext \<Rightarrow> string \<Rightarrow> py_error + string" where
  "comparison ctx q =
    (let metric = find_metric q; year = find_year q (years ctx)
     in if \<not> truthy_str metric \<or> \<not> truthy_int year
        then Inr ''For compare, include metric and year. Example: compare net income 2024''
        else
          (case (metric, year) of
             (Some m, Some y) \<Rightarrow>
               (let yearly = filter (\<lambda>r. Fiscal_Year r = y) (rows ctx)
                in case sorted_reverse_by (\<lambda>r. row_metric r m) yearly of
                     Inl e \<Rightarrow> Inl e
                   | Inr srt \<Rightarrow>
                       (case map_err (\<lambda>r. case row_metric r m of
                                          Inl e \<Rightarrow> Inl e
                                        | Inr v \<Rightarrow> Inr (''- '' @ Company r @ '': '' @ money v)) srt of
                          Inl e \<Rightarrow> Inl e
                        | Inr ls \<Rightarrow> Inr (join [CHR 0x0A] ((m @ '' in '' @ str_int y @ '':'') # ls))))
           | _ \<Rightarrow> Inl ValueError))"

text \<open>The branch for \<^verbatim>\<open>"growth"\<close> and \<^verbatim>\<open>"change"\<close> (lines 129 to 153).
  \<open>growth_years\<close> is line 132, \<open>percent_change\<close> line 148.\<close>

definition growth_years :: "string \<Rightarrow> int list" where
  "growth_years q = sort (remdups (map int_of_digits (findall_20dd q)))"

definition percent_change :: "rat \<Rightarrow> rat \<Rightarrow> py_error + rat" where
  "percent_change delta old =
    (if old \<noteq> 0
     then (case float_div delta old of Inl e \<Rightarrow> Inl e | Inr d \<Rightarrow> Inr (float_mul d 100))
     else Inr 0)"

definition growth_report ::
    "string \<Rightarrow> string \<Rightarrow> int \<Rightarrow> int \<Rightarrow> row \<Rightarrow> row \<Rightarrow> py_error + string" where
  "growth_report company metric y1 y2 r1 r2 =
    (case row_metric r1 metric of
       Inl e \<Rightarrow> Inl e
     | Inr old \<Rightarrow>
         (case row_metric r2 metric of
            Inl e \<Rightarrow> Inl e
          | Inr new \<Rightarrow>
              (let delta = float_sub new old
               in case percent_change delta old of
                    Inl e \<Rightarrow> Inl e
                  | Inr pct \<Rightarrow>
                      (let sign = (if 0 \<le> delta then ''+'' else ''-'')
                       in Inr (company @ '' '' @ metric @ '' changed from '' @ money old @
                               '' ('' @ str_int y1 @ '') to '' @ money new @
                               '' ('' @ str_int y2 @ ''): '' @ sign @ money \<bar>delta\<bar> @
                               '' ('' @ sign @ format_2f \<bar>pct\<bar> @ ''%).'')))))"

definition growth :: "BotContext \<Rightarrow> string \<Rightarrow> py_error + string" where
  "growth ctx q =
    (let company = find_company q (companies ctx);
         metric = find_metric q;
         ys = growth_years q
     in if \<not> truthy_str company \<or> \<not> truthy_str metric \<or> length ys < 2
        then Inr (''For growth, include company, metric, and two years. '' @
                  ''Example: growth of Tesla revenue from 2023 to 2025'')
        else
          (case (company, metric) of
             (Some c, Some m) \<Rightarrow>
               (case first ys of
                  Inl e \<Rightarrow> Inl e
                | Inr y1 \<Rightarrow>
                    (case last_item ys of
                       Inl e \<Rightarrow> Inl e
                     | Inr y2 \<Rightarrow>
                         if y1 \<notin> set (years ctx) \<or> y2 \<notin> set (years ctx)
                         then Inr (''Available years are: '' @ join '', '' (map str_int (years ctx)))
                         else
                           (case (get_row ctx c y1, get_row ctx c y2) of
                              (Some r1, Some r2) \<Rightarrow> growth_report c m y1 y2 r1 r2
                            | _ \<Rightarrow>
                                Inr (''Missing data for '' @ c @ '' in '' @ str_int y1 @
                                     '' or '' @ str_int y2 @ ''.''))))
           | _ \<Rightarrow> Inl ValueError))"

text \<open>The summary block (lines 170 to 177); the five keys it reads are columns of every
  row.\<close>

definition summary_text :: "string \<Rightarrow> int \<Rightarrow> row \<Rightarrow> string" where
  "summary_text company latest r =
    company @ '' summary ('' @ str_int latest @ ''):'' @ [CHR 0x0A] @
    ''- Revenue: '' @ money (Total_Revenue r) @ [CHR 0x0A] @
    ''- Net Income: '' @ money (Net_Income r) @ [CHR 0x0A] @
    ''- Total Assets: '' @ money (Total_Assets r) @ [CHR 0x0A] @
    ''- Total Liabilities: '' @ money (Total_Liabilities r) @ [CHR 0x0A] @
    ''- Operating Cash Flow: '' @ money (Operating_Cash_Flow r)"

text \<open>The rest of \<^verbatim>\<open>handle_query\<close> (lines 155 to 182): point lookup, summary, and the
  reply to a query that was not understood.\<close>

definition lookup_or_summary :: "BotContext \<Rightarrow> string \<Rightarrow> py_error + string" where
  "lookup_or_summary ctx q =
    (let company = find_company q (companies ctx);
         year = find_year q (years ctx);
         metric = find_metric q
     in if truthy_str company \<and> truthy_int year \<and> truthy_str metric
        then
          (case (company, year, metric) of
             (Some c, Some y, Some m) \<Rightarrow>
               (case get_row ctx c y of
                  None \<Rightarrow> Inr (''No data for '' @ c @ '' in '' @ str_int y @ ''.'')
                | Some r \<Rightarrow>
                    (case row_metric r m of
                       Inl e \<Rightarrow> Inl e
                     | Inr v \<Rightarrow>
                         Inr (c @ '' '' @ m @ '' in '' @ str_int y @ '': '' @ money v @ ''.'')))
           | _ \<Rightarrow> Inl ValueError)
        else if truthy_str company \<and> (sublist ''summary'' q \<or> sublist ''overview'' q)
        then
          (case company of
             Some c \<Rightarrow>
               (case py_max (years ctx) of
                  Inl e \<Rightarrow> Inl e
                | Inr latest \<Rightarrow>
                    (case get_row ctx c latest of
                       None \<Rightarrow> Inr (''No summary available for '' @ c @ ''.'')
                     | Some r \<Rightarrow> Inr (summary_text c latest r)))
           | None \<Rightarrow> Inl ValueError)
        else Inr (''I couldn't understand that. Type `help` for examples.'' @ [CHR 0x0A] @
                  ''Tip: ask like 'Apple revenue 2025' or 'compare net income 2024'.''))"

definition handle_query :: "BotContext \<Rightarrow> string \<Rightarrow> py_error + string" where
  "handle_query ctx query =
    (let q = normalize_text query
     in if q \<in> {''help'', ''h'', ''?''} then Inr (help_text ctx)
        else if sublist ''list companies'' q \<or> ''companies'' = q
        then Inr (''Companies: '' @ join '', '' (companies ctx))
        else if sublist ''list years'' q \<or> ''years'' = q
        then Inr (''Years: '' @ join '', '' (map str_int (years ctx)))
        else if sublist ''top'' q \<or> sublist ''highest'' q then ranking ctx q
        else if sublist ''compare'' q then comparison ctx q
        else if sublist ''growth'' q \<or> sublist ''change'' q then growth ctx q
        else lookup_or_summary ctx q)"

text \<open>One pass of the loop of \<^verbatim>\<open>main\<close> on an input line: the context the next pass
  sees, the line printed (if any), and whether the loop goes on.\<close>

definition main_step :: "BotContext \<Rightarrow> string \<Rightarrow> BotContext \<times> (py_error + string option \<times> bool)" where
  "main_step ctx line =
    (let user = strip line
     in if user = [] then (ctx, Inr (None, True))
        else if normalize_text user \<in> {''exit'', ''quit''} then (ctx, Inr (Some ''Bot: Bye.'', False))
        else (case handle_query ctx user of
                Inl e \<Rightarrow> (ctx, Inl e)
              | Inr reply \<Rightarrow> (ctx, Inr (Some (''Bot: '' @ reply), True))))"

section \<open>Vocabulary of the properties\<close>

text \<open>A record with the given company, year and total revenue, for concrete scenarios.\<close>

definition sample_row :: "string \<Rightarrow> int \<Rightarrow> rat \<Rightarrow> row" where
  "sample_row c y v =
    \<lparr>Company = c, Fiscal_Year = y, File = ''10-K.pdf'', Total_Revenue = v, Net_Income = 0,
     Total_Assets = 0, Total_Liabilities = 0, Operating_Cash_Flow = 0\<rparr>"

text \<open>The pieces of a string between occurrences of a separator character.\<close>

fun split_on :: "char \<Rightarrow> string \<Rightarrow> string list" where
  "split_on c [] = [[]]"
| "split_on c (x # xs) =
    (if x = c then [] # split_on c xs else (x # hd (split_on c xs)) # tl (split_on c xs))"

text \<open>A digit string with thousands separators: groups of digits between commas, the
  first of one to three digits, every later one of exactly three.\<close>

definition thousands_grouped :: "string \<Rightarrow> bool" where
  "thousands_grouped body \<longleftrightarrow>
    (let gs = split_on CHR '','' body
     in list_all (list_all is_digit) gs \<and> 1 \<le> length (hd gs) \<and> length (hd gs) \<le> 3 \<and>
        list_all (\<lambda>g. length g = 3) (tl gs))"

text \<open>Every place of a string where \<^verbatim>\<open>20\d{2}\<close> matches, overlapping places included.\<close>

fun all_20dd :: "string \<Rightarrow> string list" where
  "all_20dd (a # b # c # d # cs) =
    (if is_20dd a b c d then [[a, b, c, d]] else []) @ all_20dd (b # c # d # cs)"
| "all_20dd _ = []"

text \<open>A record with every column given, for concrete scenarios.\<close>

definition metric_row :: "string \<Rightarrow> int \<Rightarrow> rat \<Rightarrow> rat \<Rightarrow> rat \<Rightarrow> rat \<Rightarrow> rat \<Rightarrow> row" where
  "metric_row c y revenue income assets liabilities cash =
    \<lparr>Company = c, Fiscal_Year = y, File = ''10-K.pdf'', Total_Revenue = revenue,
     Net_Income = income, Total_Assets = assets, Total_Liabilities = liabilities,
     Operating_Cash_Flow = cash\<rparr>"

text \<open>The metric columns of the dataset by their canonical names, and the value a record
  has in the column of a given name (zero for a name that is no column).\<close>

definition metric_columns :: "(string \<times> (row \<Rightarrow> rat)) list" where
  "metric_columns =
    [(''Total Revenue (USD millions)'', Total_Revenue),
     (''Net Income (USD millions)'', Net_Income),
     (''Total Assets (USD millions)'', Total_Assets),
     (''Total Liabilities (USD millions)'', Total_Liabilities),
     (''Operating Cash Flow (USD millions)'', Operating_Cash_Flow)]"

definition metric_value :: "string \<Rightarrow> row \<Rightarrow> rat" where
  "metric_value m r = (case map_of metric_columns m of None \<Rightarrow> 0 | Some column \<Rightarrow> column r)"

text \<open>The places of a string where the pattern \<^verbatim>\<open>20\d{2}\<close> matches, as positions in
  ascending order; and, of a list of positions, those that a scan from the left keeps
  when a match takes four characters and the scan goes on behind it.\<close>

definition match_at :: "string \<Rightarrow> nat \<Rightarrow> bool" where
  "match_at s i \<longleftrightarrow>
    i + 4 \<le> length s \<and> is_20dd (s ! i) (s ! (i + 1)) (s ! (i + 2)) (s ! (i + 3))"

definition match_positions :: "string \<Rightarrow> nat list" where
  "match_positions s = filter (match_at s) [0..<length s]"

fun leftmost_disjoint :: "nat list \<Rightarrow> nat list" where
  "leftmost_disjoint [] = []"
| "leftmost_disjoint (p # ps) = p # leftmost_disjoint (filter (\<lambda>i. p + 4 \<le> i) ps)"

section \<open>Decimal digits\<close>

lemma of_char_digit_char: "0 \<le> d \<Longrightarrow> d < 10 \<Longrightarrow> (of_char (digit_char d) :: int) = 48 + d"
  by (simp add: digit_char_def)

lemma digit_val_digit_char: "0 \<le> d \<Longrightarrow> d < 10 \<Longrightarrow> digit_val (digit_char d) = d"
  by (simp add: digit_val_def of_char_digit_char)

lemma is_digit_digit_char: "0 \<le> d \<Longrightarrow> d < 10 \<Longrightarrow> is_digit (digit_char d)"
  by (simp add: is_digit_def of_char_digit_char)

lemma digits_of_not_Nil: "digits_of n \<noteq> []"
  by (subst digits_of.simps) simp

lemma digits_of_digits: "0 \<le> n \<Longrightarrow> list_all is_digit (digits_of n)"
proof (induction n rule: digits_of.induct)
  case (1 n)
  show ?case
  proof (cases "n < 10")
    case True
    with "1.prems" show ?thesis
      by (subst digits_of.simps) (simp add: is_digit_digit_char)
  next
    case False
    with "1.prems" "1.IH" have "list_all is_digit (digits_of (n div 10))" by simp
    moreover have "is_digit (digit_char (n mod 10))"
      by (rule is_digit_digit_char) simp_all
    ultimately show ?thesis using False
      by (subst digits_of.simps) simp
  qed
qed

lemma int_of_digits_snoc: "int_of_digits (xs @ [c]) = 10 * int_of_digits xs + digit_val c"
  by (simp add: int_of_digits_def)

lemma int_of_digits_digits_of: "0 \<le> n \<Longrightarrow> int_of_digits (digits_of n) = n"
proof (induction n rule: digits_of.induct)
  case (1 n)
  show ?case
  proof (cases "n < 10")
    case True
    with "1.prems" show ?thesis
      by (subst digits_of.simps) (simp add: int_of_digits_def digit_val_digit_char)
  next
    case False
    with "1.prems" "1.IH" have "int_of_digits (digits_of (n div 10)) = n div 10" by simp
    moreover have "digit_val (digit_char (n mod 10)) = n mod 10"
      by (rule digit_val_digit_char) simp_all
    ultimately show ?thesis using False
      by (subst digits_of.simps) (simp add: int_of_digits_snoc)
  qed
qed

section \<open>The value formatter\<close>

lemma split_on_not_Nil: "split_on c xs \<noteq> []"
  by (induction xs) auto

lemma split_on_append: "split_on c (xs @ c # ys) = split_on c xs @ split_on c ys"
  by (induction xs) (auto simp: split_on_not_Nil)

lemma split_on_absent: "c \<notin> set xs \<Longrightarrow> split_on c xs = [xs]"
  by (induction xs) auto

lemma comma_not_digit: "is_digit x \<Longrightarrow> x \<noteq> CHR '',''"
  by (auto simp: is_digit_def)

lemma split_on_digits: "list_all is_digit ds \<Longrightarrow> split_on CHR '','' ds = [ds]"
  by (rule split_on_absent) (auto simp: list_all_iff dest: comma_not_digit)

lemma group_thousands_split:
  "ds \<noteq> [] \<Longrightarrow> list_all is_digit ds \<Longrightarrow>
   concat (split_on CHR '','' (group_thousands ds)) = ds \<and>
   list_all (list_all is_digit) (split_on CHR '','' (group_thousands ds)) \<and>
   1 \<le> length (hd (split_on CHR '','' (group_thousands ds))) \<and>
   length (hd (split_on CHR '','' (group_thousands ds))) \<le> 3 \<and>
   list_all (\<lambda>g. length g = 3) (tl (split_on CHR '','' (group_thousands ds)))"
proof (induction ds rule: group_thousands.induct)
  case (1 ds)
  show ?case
  proof (cases "length ds \<le> 3")
    case True
    have g: "group_thousands ds = ds" using True by (subst group_thousands.simps) simp
    have sp: "split_on CHR '','' (group_thousands ds) = [ds]"
      using g split_on_digits[OF "1.prems"(2)] by simp
    from "1.prems" True show ?thesis
      by (simp add: sp Suc_le_eq)
  next
    case False
    let ?a = "take (length ds - 3) ds" and ?b = "drop (length ds - 3) ds"
    have g: "group_thousands ds = group_thousands ?a @ CHR '','' # ?b"
      using False by (subst group_thousands.simps) simp
    have a: "?a \<noteq> []" "list_all is_digit ?a" and b: "list_all is_digit ?b" "length ?b = 3"
      using False "1.prems" by (auto simp: list_all_iff dest: in_set_takeD in_set_dropD)
    note ih = "1.IH"[OF False a]
    have sp: "split_on CHR '','' (group_thousands ds) = split_on CHR '','' (group_thousands ?a) @ [?b]"
      by (simp add: g split_on_append split_on_digits[OF b(1)])
    have ne: "split_on CHR '','' (group_thousands ?a) \<noteq> []" by (rule split_on_not_Nil)
    show ?thesis
      using ih b ne by (simp add: sp)
  qed
qed

lemma round_half_even_near: "\<bar>of_int (round_half_even v) - v\<bar> \<le> 1 / 2"
proof -
  have "of_int \<lfloor>v\<rfloor> \<le> v" "v < of_int \<lfloor>v\<rfloor> + 1" by linarith+
  then show ?thesis
    by (auto simp: round_half_even_def Let_def abs_le_iff)
qed

lemma round_half_even_nearest: "\<bar>of_int (round_half_even v) - v\<bar> \<le> \<bar>of_int m - v\<bar>"
proof (cases "m = round_half_even v")
  case True
  then show ?thesis by simp
next
  case False
  then have "1 \<le> \<bar>m - round_half_even v\<bar>" by linarith
  then have "(1::rat) \<le> \<bar>of_int m - of_int (round_half_even v)\<bar>"
    by (metis of_int_1 of_int_abs of_int_diff of_int_le_iff)
  with round_half_even_near[of v] show ?thesis by linarith
qed

lemma round_half_even_sign:
  "(if v < 0 then - 1 else 1) * \<bar>round_half_even v\<bar> = round_half_even v"
proof -
  have "rat_of_int (round_half_even v) \<le> v + 1 / 2" "v - 1 / 2 \<le> rat_of_int (round_half_even v)"
    using round_half_even_near[of v] by linarith+
  then have "v < 0 \<Longrightarrow> rat_of_int (round_half_even v) < 1"
    and "0 \<le> v \<Longrightarrow> - 1 < rat_of_int (round_half_even v)"
    by linarith+
  then have "v < 0 \<Longrightarrow> round_half_even v \<le> 0" and "0 \<le> v \<Longrightarrow> 0 \<le> round_half_even v"
    by (simp, linarith)+
  then show ?thesis by (cases "v < 0") simp_all
qed

text \<open>
  Claim C9. The value formatter \<open>money\<close> writes a dollar sign, a minus sign when the value is
  negative, the integer nearest to the value (no integer is nearer) in decimal digits with
  a comma before every group of three digits, and the suffix M. In particular
  \<open>money 12345.6\<close> is \<open>$12,346M\<close>, for the decimal number 12345.6 and for the
  double-precision number nearest to it alike.
\<close>

theorem money_format:
  "money 12345.6 = ''$12,346M'' \<and>
   money (6787065375935693 / 549755813888) = ''$12,346M'' \<and>
   (\<exists>body. money v = ''$'' @ (if v < 0 then ''-'' else '''') @ body @ ''M'' \<and>
      thousands_grouped body \<and>
      (if v < 0 then - 1 else 1) * int_of_digits (concat (split_on CHR '','' body)) = round_half_even v \<and>
      (\<forall>m. \<bar>of_int (round_half_even v) - v\<bar> \<le> \<bar>of_int m - v\<bar>))"
proof (intro conjI)
  show "money 12345.6 = ''$12,346M''" by code_simp
  show "money (6787065375935693 / 549755813888) = ''$12,346M''" by code_simp
  let ?ds = "digits_of \<bar>round_half_even v\<bar>"
  have ds: "?ds \<noteq> []" "list_all is_digit ?ds"
    by (simp_all add: digits_of_not_Nil digits_of_digits)
  note sp = group_thousands_split[OF ds]
  have val: "int_of_digits ?ds = \<bar>round_half_even v\<bar>"
    by (simp add: int_of_digits_digits_of)
  have "money v = ''$'' @ (if v < 0 then ''-'' else '''') @ group_thousands ?ds @ ''M''"
    by (simp add: money_def format_comma_0f_def)
  moreover have "thousands_grouped (group_thousands ?ds)"
    using sp by (simp add: thousands_grouped_def Let_def)
  moreover have "(if v < 0 then - 1 else 1) *
      int_of_digits (concat (split_on CHR '','' (group_thousands ?ds))) = round_half_even v"
    using sp val round_half_even_sign[of v] by simp
  ultimately show "\<exists>body. money v = ''$'' @ (if v < 0 then ''-'' else '''') @ body @ ''M'' \<and>
      thousands_grouped body \<and>
      (if v < 0 then - 1 else 1) * int_of_digits (concat (split_on CHR '','' body)) = round_half_even v \<and>
      (\<forall>m. \<bar>of_int (round_half_even v) - v\<bar> \<le> \<bar>of_int m - v\<bar>)"
    using round_half_even_nearest[of v] by blast
qed

theorem money_format_witness:
  "\<exists>body. money (- 1234567.5) = ''$-'' @ body @ ''M'' \<and> thousands_grouped body \<and>
     - int_of_digits (concat (split_on CHR '','' body)) = round_half_even (- 1234567.5)"
  using money_format[of "- 1234567.5"] by auto

section \<open>Float rounding\<close>







section \<open>The company extractor\<close>

lemma of_char_lower_char:
  "(of_char (lower_char c) :: int) =
    (if (65 \<le> (of_char c :: int) \<and> (of_char c :: int) \<le> 90) \<or>
        (192 \<le> (of_char c :: int) \<and> (of_char c :: int) \<le> 222 \<and> (of_char c :: int) \<noteq> 215)
     then of_char c + 32 else of_char c)"
proof -
  have "(of_char c :: int) < 256"
    by (metis of_char_mod_256 pos_mod_bound zero_less_numeral)
  then show ?thesis
    by (simp add: lower_char_def)
qed

lemma is_space_lower_char: "is_space (lower_char c) = is_space c"
  by (auto simp: is_space_def of_char_lower_char)

lemma dropWhile_space_lower: "dropWhile is_space (lower s) = lower (dropWhile is_space s)"
  by (induction s) (simp_all add: lower_def is_space_lower_char)

lemma strip_lower: "strip (lower s) = lower (strip s)"
proof -
  have "rev (lower s) = lower (rev s)" for s
    by (simp add: lower_def rev_map)
  then show ?thesis
    by (simp add: strip_def dropWhile_space_lower)
qed

lemma normalize_text_lower: "lower a = lower b \<Longrightarrow> normalize_text a = normalize_text b"
  by (metis normalize_text_def strip_lower)

lemma find_first:
  "z \<in> set zs \<Longrightarrow> Q z \<Longrightarrow> \<forall>y \<in> set (takeWhile (\<lambda>y. y \<noteq> z) zs). \<not> Q y \<Longrightarrow> List.find Q zs = Some z"
proof (induction zs)
  case Nil
  then show ?case by simp
next
  case (Cons a zs)
  then show ?case by (cases "a = z") auto
qed

lemma find_Some_first:
  "List.find Q zs = Some z \<Longrightarrow> z \<in> set zs \<and> Q z \<and> (\<forall>y \<in> set (takeWhile (\<lambda>y. y \<noteq> z) zs). \<not> Q y)"
proof (induction zs)
  case Nil
  then show ?case by simp
next
  case (Cons a zs)
  then show ?case by (cases "Q a") auto
qed

text \<open>
  Claim C7, as amended. Names and queries are text of code points below 256, and a query
  is C's name in another letter case when \<^verbatim>\<open>str.lower\<close> gives the same string for both.
  Let C be a company of the list whose name has no leading or trailing whitespace and no
  whitespace other than single blanks (normalizing it only lowers its letters), and let
  no company before C in the list have a lowercased name that is a substring of C's
  lowercased name. Then \<open>find_company\<close> applied to C's name in any letter case returns C.
  In general the company returned is the first of the list whose lowercased name is a
  substring of the normalized query.
\<close>

theorem find_company_exact:
  "(C \<in> set cs \<longrightarrow> lower query = lower C \<longrightarrow> normalize_text C = lower C \<longrightarrow>
      (\<forall>D \<in> set (takeWhile (\<lambda>D. D \<noteq> C) cs). \<not> sublist (lower D) (lower C)) \<longrightarrow>
      find_company query cs = Some C) \<and>
   (find_company query cs = Some D \<longrightarrow>
      D \<in> set cs \<and> sublist (lower D) (normalize_text query) \<and>
      (\<forall>E \<in> set (takeWhile (\<lambda>E. E \<noteq> D) cs). \<not> sublist (lower E) (normalize_text query)))"
proof -
  have first_part: "find_company query cs = Some C"
    if mem: "C \<in> set cs" and eq: "lower query = lower C" and norm: "normalize_text C = lower C"
      and before: "\<forall>D \<in> set (takeWhile (\<lambda>D. D \<noteq> C) cs). \<not> sublist (lower D) (lower C)"
  proof -
    have q: "normalize_text query = lower C"
      using normalize_text_lower[OF eq] norm by simp
    have "List.find (\<lambda>company. sublist (lower company) (lower C)) cs = Some C"
      using mem before by (intro find_first) simp_all
    then show ?thesis
      by (simp add: find_company_def q)
  qed
  have second_part: "D \<in> set cs \<and> sublist (lower D) (normalize_text query) \<and>
      (\<forall>E \<in> set (takeWhile (\<lambda>E. E \<noteq> D) cs). \<not> sublist (lower E) (normalize_text query))"
    if "find_company query cs = Some D"
  proof -
    from that
    have "List.find (\<lambda>company. sublist (lower company) (normalize_text query)) cs = Some D"
      by (simp add: find_company_def)
    from find_Some_first[OF this] show ?thesis
      by simp
  qed
  from first_part second_part show ?thesis
    by blast
qed

theorem find_company_exact_witness:
  "''Apple'' \<in> set [''App Store'', ''Apple'', ''Tesla''] \<and> lower ''aPPLE'' = lower ''Apple'' \<and>
   normalize_text ''Apple'' = lower ''Apple'' \<and>
   takeWhile (\<lambda>D. D \<noteq> ''Apple'') [''App Store'', ''Apple'', ''Tesla''] = [''App Store''] \<and>
   \<not> sublist (lower ''App Store'') (lower ''Apple'') \<and>
   find_company ''aPPLE'' [''App Store'', ''Apple'', ''Tesla''] = Some ''Apple'' \<and>
   lower (CHR 0xE9 # ''COLE 42'') = lower (CHR 0xC9 # ''cole 42'') \<and>
   normalize_text (CHR 0xC9 # ''cole 42'') = lower (CHR 0xC9 # ''cole 42'') \<and>
   lower (CHR 0xC9 # ''cole 42'') = CHR 0xE9 # ''cole 42'' \<and>
   takeWhile (\<lambda>D. D \<noteq> CHR 0xC9 # ''cole 42'') [''Apple'', CHR 0xC9 # ''cole 42''] = [''Apple''] \<and>
   \<not> sublist (lower ''Apple'') (lower (CHR 0xC9 # ''cole 42'')) \<and>
   find_company (CHR 0xE9 # ''COLE 42'') [''Apple'', CHR 0xC9 # ''cole 42''] =
     Some (CHR 0xC9 # ''cole 42'')"
proof -
  have h1: "''Apple'' \<in> set [''App Store'', ''Apple'', ''Tesla'']" by simp
  have h2: "lower ''aPPLE'' = lower ''Apple''" by code_simp
  have h3: "normalize_text ''Apple'' = lower ''Apple''" by code_simp
  have t: "takeWhile (\<lambda>D. D \<noteq> ''Apple'') [''App Store'', ''Apple'', ''Tesla''] = [''App Store'']"
    by simp
  have n: "\<not> sublist (lower ''App Store'') (lower ''Apple'')" by code_simp
  have h4: "\<forall>D \<in> set (takeWhile (\<lambda>D. D \<noteq> ''Apple'') [''App Store'', ''Apple'', ''Tesla'']).
      \<not> sublist (lower D) (lower ''Apple'')"
    unfolding t using n by simp
  note r = find_company_exact[of "''Apple''" "[''App Store'', ''Apple'', ''Tesla'']" "''aPPLE''",
      THEN conjunct1, rule_format]
  have a: "find_company ''aPPLE'' [''App Store'', ''Apple'', ''Tesla''] = Some ''Apple''"
    by (rule r[OF h1 h2 h3 h4[rule_format]])
  let ?C = "CHR 0xC9 # ''cole 42''"
  have k1: "?C \<in> set [''Apple'', ?C]" by simp
  have k2: "lower (CHR 0xE9 # ''COLE 42'') = lower ?C" by code_simp
  have k3: "normalize_text ?C = lower ?C" by code_simp
  have kl: "lower ?C = CHR 0xE9 # ''cole 42''" by code_simp
  have kt: "takeWhile (\<lambda>D. D \<noteq> ?C) [''Apple'', ?C] = [''Apple'']" by simp
  have kn: "\<not> sublist (lower ''Apple'') (lower ?C)" by code_simp
  have k4: "\<forall>D \<in> set (takeWhile (\<lambda>D. D \<noteq> ?C) [''Apple'', ?C]). \<not> sublist (lower D) (lower ?C)"
    unfolding kt using kn by simp
  note l = find_company_exact[of ?C "[''Apple'', ?C]" "CHR 0xE9 # ''COLE 42''",
      THEN conjunct1, rule_format]
  have b: "find_company (CHR 0xE9 # ''COLE 42'') [''Apple'', ?C] = Some ?C"
    by (rule l[OF k1 k2 k3 k4[rule_format]])
  show ?thesis
    by (intro conjI h1 h2 h3 t n a k2 k3 kl kt kn b)
qed

text \<open>
  Claim C7 as stated fails. With the companies App and Apple in the data, the query Apple
  yields App, which comes first in the sorted list and is a substring of the query; and a
  company whose name holds two blanks in a row, or a no-break space (0xA0), is never found
  by its own name, because the query is normalized and the name is not.
\<close>

theorem find_company_counterexample:
  "''Apple'' \<in> set (companies (load_data [sample_row ''Apple'' 2025 1, sample_row ''App'' 2025 2])) \<and>
   find_company ''Apple'' (companies (load_data [sample_row ''Apple'' 2025 1, sample_row ''App'' 2025 2]))
     = Some ''App'' \<and>
   ''Big  Co'' \<in> set (companies (load_data [sample_row ''Big  Co'' 2025 1])) \<and>
   find_company ''Big  Co'' (companies (load_data [sample_row ''Big  Co'' 2025 1])) = None \<and>
   [CHR ''A'', CHR 0xA0, CHR ''B''] \<in>
     set (companies (load_data [sample_row [CHR ''A'', CHR 0xA0, CHR ''B''] 2025 1])) \<and>
   normalize_text [CHR ''A'', CHR 0xA0, CHR ''B''] = ''a b'' \<and>
   find_company [CHR ''A'', CHR 0xA0, CHR ''B'']
     (companies (load_data [sample_row [CHR ''A'', CHR 0xA0, CHR ''B''] 2025 1])) = None"
  unfolding sample_row_def by code_simp

section \<open>The year extractor\<close>

lemma search_20dd_all: "search_20dd s = (case all_20dd s of [] \<Rightarrow> None | t # _ \<Rightarrow> Some t)"
  by (induction s rule: search_20dd.induct) simp_all

lemma all_20dd_sublist:
  "is_20dd a b c d \<Longrightarrow> sublist [a, b, c, d] s \<Longrightarrow> [a, b, c, d] \<in> set (all_20dd s)"
proof (induction s rule: all_20dd.induct)
  case (1 a' b' c' d' cs)
  from "1.prems"(2) have "prefix [a, b, c, d] (a' # b' # c' # d' # cs) \<or>
      sublist [a, b, c, d] (b' # c' # d' # cs)"
    by (simp add: sublist_Cons_right)
  then show ?case
  proof
    assume "prefix [a, b, c, d] (a' # b' # c' # d' # cs)"
    then have "a' = a" "b' = b" "c' = c" "d' = d" by simp_all
    with "1.prems"(1) show ?thesis by simp
  next
    assume "sublist [a, b, c, d] (b' # c' # d' # cs)"
    with "1.IH" "1.prems"(1) show ?thesis by simp
  qed
qed (auto dest: sublist_length_le)

lemma all_20dd_form: "t \<in> set (all_20dd s) \<Longrightarrow> \<exists>c d. t = [CHR ''2'', CHR ''0'', c, d] \<and> is_digit c \<and> is_digit d"
  by (induction s rule: all_20dd.induct) (auto simp: is_20dd_def split: if_splits)

lemma digits_of_20: "digits_of 20 = ''20''"
  by code_simp

lemma str_int_20dd:
  assumes "2000 \<le> Y" "Y \<le> 2099"
  shows "str_int Y = [CHR ''2'', CHR ''0'', digit_char (Y div 10 mod 10), digit_char (Y mod 10)]"
proof -
  have "Y div 10 div 10 = 20" using assms by linarith
  moreover have "\<not> Y < 10" "\<not> Y div 10 < 10" using assms by linarith+
  ultimately have "digits_of Y = digits_of 20 @ [digit_char (Y div 10 mod 10), digit_char (Y mod 10)]"
    by (subst digits_of.simps, subst digits_of.simps) simp
  then show ?thesis
    using assms by (simp add: str_int_def digits_of_20)
qed

lemma str_int_is_20dd:
  assumes "2000 \<le> Y" "Y \<le> 2099"
  shows "is_20dd CHR ''2'' CHR ''0'' (digit_char (Y div 10 mod 10)) (digit_char (Y mod 10))"
  by (simp add: is_20dd_def is_digit_digit_char)

lemma int_of_digits_str_int: "0 \<le> Y \<Longrightarrow> int_of_digits (str_int Y) = Y"
  by (simp add: str_int_def int_of_digits_digits_of)

text \<open>
  Claim C8, as amended. For every year Y from 2000 to 2099 present in the dataset, the year
  extractor applied to a query that contains Y as a substring and in which the pattern
  20xx matches nowhere else returns Y. For every query whose first 20xx token is not a year
  of the dataset, and for every query without such a token, it returns absent.
\<close>

theorem find_year_exact:
  "(Y \<in> set ys \<longrightarrow> 2000 \<le> Y \<longrightarrow> Y \<le> 2099 \<longrightarrow> sublist (str_int Y) query \<longrightarrow>
      (\<forall>t \<in> set (all_20dd query). t = str_int Y) \<longrightarrow> find_year query ys = Some Y) \<and>
   (all_20dd query = t # ts \<longrightarrow> int_of_digits t \<notin> set ys \<longrightarrow> find_year query ys = None) \<and>
   (all_20dd query = [] \<longrightarrow> find_year query ys = None)"
proof -
  have first_part: "find_year query ys = Some Y"
    if mem: "Y \<in> set ys" and lo: "2000 \<le> Y" and hi: "Y \<le> 2099"
      and sub: "sublist (str_int Y) query"
      and only: "\<forall>t \<in> set (all_20dd query). t = str_int Y"
  proof -
    have "str_int Y \<in> set (all_20dd query)"
      using all_20dd_sublist[OF str_int_is_20dd[OF lo hi]] sub str_int_20dd[OF lo hi] by simp
    then obtain u us where u: "all_20dd query = u # us"
      by (cases "all_20dd query") auto
    with only have "u = str_int Y" by simp
    with u have "search_20dd query = Some (str_int Y)"
      by (simp add: search_20dd_all)
    moreover have "int_of_digits (str_int Y) = Y"
      using lo by (intro int_of_digits_str_int) simp
    ultimately show ?thesis
      using mem by (simp add: find_year_def)
  qed
  have second_part: "find_year query ys = None"
    if "all_20dd query = t # ts" and "int_of_digits t \<notin> set ys"
    using that by (simp add: find_year_def search_20dd_all)
  have third_part: "find_year query ys = None" if "all_20dd query = []"
    using that by (simp add: find_year_def search_20dd_all)
  from first_part second_part third_part show ?thesis
    by blast
qed

theorem find_year_exact_witness:
  "(2025 \<in> set [2024, 2025] \<and> (2000::int) \<le> 2025 \<and> (2025::int) \<le> 2099 \<and>
      sublist (str_int 2025) ''Apple revenue 2025'' \<and>
      all_20dd ''Apple revenue 2025'' = [str_int 2025] \<and>
      find_year ''Apple revenue 2025'' [2024, 2025] = Some 2025) \<and>
   (all_20dd ''revenue 2030 or 2025'' = [''2030'', ''2025''] \<and> int_of_digits ''2030'' \<notin> set [2024, 2025] \<and>
      find_year ''revenue 2030 or 2025'' [2024, 2025] = None) \<and>
   (all_20dd ''Apple revenue'' = [] \<and> find_year ''Apple revenue'' [2024, 2025] = None)"
proof -
  have h1: "(2025::int) \<in> set [2024, 2025]" by simp
  have h2: "sublist (str_int 2025) ''Apple revenue 2025''" by code_simp
  have h3': "all_20dd ''Apple revenue 2025'' = [str_int 2025]" by code_simp
  have h3: "\<forall>t \<in> set (all_20dd ''Apple revenue 2025''). t = str_int 2025"
    unfolding h3' by simp
  have h4: "all_20dd ''revenue 2030 or 2025'' = [''2030'', ''2025'']" by code_simp
  have h5: "int_of_digits ''2030'' \<notin> set [2024, 2025]" by code_simp
  have h6: "all_20dd ''Apple revenue'' = []" by code_simp
  from find_year_exact[of 2025 "[2024, 2025]" "''Apple revenue 2025''"] h1 h2 h3
  have a: "find_year ''Apple revenue 2025'' [2024, 2025] = Some 2025" by simp
  from find_year_exact[of _ "[2024, 2025]" "''revenue 2030 or 2025''" "''2030''" "[''2025'']"] h4 h5
  have b: "find_year ''revenue 2030 or 2025'' [2024, 2025] = None" by simp
  from find_year_exact[of _ "[2024, 2025]" "''Apple revenue''"] h6
  have c: "find_year ''Apple revenue'' [2024, 2025] = None" by simp
  from h1 h2 h3' h4 h5 h6 a b c show ?thesis by simp
qed

text \<open>
  Claim C8 as stated fails for a dataset year outside 2000 to 2099: with the year 1999 in
  the data, the query 1999 contains that year and no other, and the extractor returns
  absent, because it only looks for the pattern 20xx.
\<close>

theorem find_year_counterexample:
  "1999 \<in> set (years (load_data [sample_row ''Apple'' 1999 1])) \<and>
   sublist (str_int 1999) ''revenue 1999'' \<and>
   find_year ''revenue 1999'' (years (load_data [sample_row ''Apple'' 1999 1])) = None"
  unfolding sample_row_def by code_simp

section \<open>Stable descending sort\<close>

lemma set_sorted_reverse: "set (sorted_reverse key xs) = set xs"
  by (simp add: sorted_reverse_def)

lemma length_sorted_reverse: "length (sorted_reverse key xs) = length xs"
  by (simp add: sorted_reverse_def)

lemma sorted_reverse_descending: "sorted_wrt (\<lambda>a b. key b \<le> key a) (sorted_reverse key xs)"
proof -
  have "sorted (map key (sort_key key (rev xs)))"
    by (rule sorted_sort_key)
  then have "sorted_wrt (\<lambda>a b. key a \<le> key b) (sort_key key (rev xs))"
    by (simp add: sorted_wrt_map)
  then show ?thesis
    by (simp add: sorted_reverse_def sorted_wrt_rev)
qed

lemma sorted_reverse_stable:
  "filter (\<lambda>x. key x = k) (sorted_reverse key xs) = filter (\<lambda>x. key x = k) xs"
proof -
  have "filter (\<lambda>x. key x = k) (sorted_reverse key xs) =
      rev (filter (\<lambda>x. key x = k) (sort_key key (rev xs)))"
    by (simp add: sorted_reverse_def rev_filter)
  also have "\<dots> = rev (filter (\<lambda>x. key x = k) (rev xs))"
    by (simp only: sort_key_stable)
  also have "\<dots> = filter (\<lambda>x. key x = k) xs"
    by (simp add: rev_filter)
  finally show ?thesis .
qed

lemma find_descending_max:
  fixes key :: "'a \<Rightarrow> 'k::linorder"
  shows "sorted_wrt (\<lambda>a b. key b \<le> key a) zs \<Longrightarrow> List.find Q zs = Some z \<Longrightarrow> y \<in> set zs \<Longrightarrow> Q y \<Longrightarrow>
   key y \<le> key z"
proof (induction zs)
  case Nil
  then show ?case by simp
next
  case (Cons a zs)
  then show ?case by (cases "Q a") auto
qed

lemma find_filter_eq: "List.find Q (filter R zs) = List.find (\<lambda>x. R x \<and> Q x) zs"
  by (induction zs) simp_all

lemma find_same_key:
  "List.find Q zs = Some z \<Longrightarrow> List.find (\<lambda>x. key x = key z \<and> Q x) zs = Some z"
proof (induction zs)
  case Nil
  then show ?case by simp
next
  case (Cons a zs)
  then show ?case by (cases "Q a") auto
qed

lemma find_sorted_reverse_first:
  assumes "List.find Q (sorted_reverse key xs) = Some z"
  shows "List.find (\<lambda>x. key x = key z \<and> Q x) xs = Some z"
proof -
  have "List.find (\<lambda>x. key x = key z \<and> Q x) (sorted_reverse key xs) = Some z"
    using assms by (rule find_same_key)
  then have "List.find Q (filter (\<lambda>x. key x = key z) (sorted_reverse key xs)) = Some z"
    by (simp add: find_filter_eq)
  then have "List.find Q (filter (\<lambda>x. key x = key z) xs) = Some z"
    by (simp only: sorted_reverse_stable)
  then show ?thesis
    by (simp add: find_filter_eq)
qed

section \<open>The metric extractor\<close>

lemma aliases_order:
  "sorted_reverse (\<lambda>x. length (fst x)) METRIC_ALIASES =
    [(''operating cash flow'', ''Operating Cash Flow (USD millions)''),
     (''total liabilities'', ''Total Liabilities (USD millions)''),
     (''total revenue'', ''Total Revenue (USD millions)''),
     (''total assets'', ''Total Assets (USD millions)''),
     (''liabilities'', ''Total Liabilities (USD millions)''),
     (''net income'', ''Net Income (USD millions)''),
     (''cash flow'', ''Operating Cash Flow (USD millions)''),
     (''revenue'', ''Total Revenue (USD millions)''),
     (''income'', ''Net Income (USD millions)''),
     (''profit'', ''Net Income (USD millions)''),
     (''assets'', ''Total Assets (USD millions)''),
     (''debt'', ''Total Liabilities (USD millions)''),
     (''cfo'', ''Operating Cash Flow (USD millions)'')]"
  by code_simp

lemma aliases_distinct: "distinct (map fst METRIC_ALIASES)"
  by code_simp

lemma find_metric_alias:
  assumes "find_metric query = Some m"
  shows "\<exists>a. (a, m) \<in> set METRIC_ALIASES \<and> sublist a (normalize_text query) \<and>
      (\<forall>x \<in> set METRIC_ALIASES. sublist (fst x) (normalize_text query) \<longrightarrow> length (fst x) \<le> length a) \<and>
      List.find (\<lambda>x. length (fst x) = length a \<and> sublist (fst x) (normalize_text query)) METRIC_ALIASES
        = Some (a, m)"
proof -
  let ?q = "normalize_text query"
  let ?key = "\<lambda>x :: string \<times> string. length (fst x)"
  let ?zs = "sorted_reverse ?key METRIC_ALIASES"
  from assms obtain z where z: "List.find (\<lambda>x. sublist (fst x) ?q) ?zs = Some z" and m: "snd z = m"
    by (auto simp: find_metric_def Let_def)
  from find_Some_first[OF z] have zin: "z \<in> set METRIC_ALIASES" and zsub: "sublist (fst z) ?q"
    by (simp_all add: set_sorted_reverse)
  have max: "length (fst x) \<le> length (fst z)"
    if "x \<in> set METRIC_ALIASES" "sublist (fst x) ?q" for x
    using find_descending_max[OF sorted_reverse_descending z, of x] that
    by (simp add: set_sorted_reverse)
  have tie: "List.find (\<lambda>x. length (fst x) = length (fst z) \<and> sublist (fst x) ?q) METRIC_ALIASES = Some z"
    using find_sorted_reverse_first[OF z] by simp
  have "z = (fst z, m)" using m by (cases z) simp
  with zin zsub max tie show ?thesis
    by (intro exI[of _ "fst z"]) auto
qed

lemma find_metric_longest:
  assumes a: "(a, m) \<in> set METRIC_ALIASES" and sub: "sublist a (normalize_text query)"
    and others: "\<forall>x \<in> set METRIC_ALIASES.
      sublist (fst x) (normalize_text query) \<longrightarrow> fst x = a \<or> length (fst x) < length a"
  shows "find_metric query = Some m"
proof -
  let ?q = "normalize_text query"
  let ?zs = "sorted_reverse (\<lambda>x :: string \<times> string. length (fst x)) METRIC_ALIASES"
  have "\<exists>x. x \<in> set ?zs \<and> sublist (fst x) ?q"
    using a sub by (auto simp: set_sorted_reverse)
  then have "List.find (\<lambda>x. sublist (fst x) ?q) ?zs \<noteq> None"
    by (simp add: find_None_iff)
  then obtain m' where m': "find_metric query = Some m'"
    by (auto simp: find_metric_def Let_def)
  from find_metric_alias[OF m'] obtain a' where a': "(a', m') \<in> set METRIC_ALIASES"
    "sublist a' ?q" "\<forall>x \<in> set METRIC_ALIASES. sublist (fst x) ?q \<longrightarrow> length (fst x) \<le> length a'"
    by blast
  from a'(3) a sub have "length a \<le> length a'" by force
  moreover from others a'(1,2) have "a' = a \<or> length a' < length a" by force
  ultimately have "a' = a" by simp
  with a a'(1) aliases_distinct have "m' = m"
    by (metis eq_key_imp_eq_value)
  with m' show ?thesis by simp
qed

lemma find_metric_net_income:
  assumes "sublist ''net income'' (normalize_text query)"
    and "\<not> sublist ''liabilities'' (normalize_text query)"
    and "\<not> sublist ''total assets'' (normalize_text query)"
    and "\<not> sublist ''total revenue'' (normalize_text query)"
    and "\<not> sublist ''operating cash flow'' (normalize_text query)"
  shows "find_metric query = Some ''Net Income (USD millions)''"
proof -
  have "sublist ''liabilities'' ''total liabilities''" by code_simp
  with assms(2) have "\<not> sublist ''total liabilities'' (normalize_text query)"
    using sublist_order.order_trans by blast
  with assms show ?thesis
    by (simp add: find_metric_def Let_def aliases_order)
qed

text \<open>
  Claim C4, as amended. The metric extractor scans the aliases in order of descending
  phrase length, aliases of equal length in the order of the table, and returns the
  canonical metric of the first alias that is a substring of the normalized query. So the
  alias that decides is never shorter than another alias that is also a substring, it is
  the first of its length in the table, and an alias that is a substring wins whenever every
  other alias that is a substring is strictly shorter. In particular a query containing
  "net income" resolves to the net-income metric unless one of the longer aliases
  (liabilities, total assets, total revenue, total liabilities, operating cash flow) is
  a substring as well.
\<close>

theorem find_metric_longest_first:
  "map (\<lambda>x. length (fst x)) (sorted_reverse (\<lambda>x. length (fst x)) METRIC_ALIASES) =
     [19, 17, 13, 12, 11, 10, 9, 7, 6, 6, 6, 4, 3] \<and>
   find_metric query =
     map_option snd (List.find (\<lambda>x. sublist (fst x) (normalize_text query))
       (sorted_reverse (\<lambda>x. length (fst x)) METRIC_ALIASES)) \<and>
   (find_metric query = Some m \<longrightarrow>
      (\<exists>a. (a, m) \<in> set METRIC_ALIASES \<and> sublist a (normalize_text query) \<and>
        (\<forall>x \<in> set METRIC_ALIASES. sublist (fst x) (normalize_text query) \<longrightarrow> length (fst x) \<le> length a) \<and>
        List.find (\<lambda>x. length (fst x) = length a \<and> sublist (fst x) (normalize_text query)) METRIC_ALIASES
          = Some (a, m))) \<and>
   ((b, n) \<in> set METRIC_ALIASES \<longrightarrow> sublist b (normalize_text query) \<longrightarrow>
      (\<forall>x \<in> set METRIC_ALIASES.
         sublist (fst x) (normalize_text query) \<longrightarrow> fst x = b \<or> length (fst x) < length b) \<longrightarrow>
      find_metric query = Some n) \<and>
   (sublist ''net income'' (normalize_text query) \<longrightarrow>
      \<not> sublist ''liabilities'' (normalize_text query) \<longrightarrow>
      \<not> sublist ''total assets'' (normalize_text query) \<longrightarrow>
      \<not> sublist ''total revenue'' (normalize_text query) \<longrightarrow>
      \<not> sublist ''operating cash flow'' (normalize_text query) \<longrightarrow>
      find_metric query = Some ''Net Income (USD millions)'')"
proof -
  have order: "map (\<lambda>x. length (fst x)) (sorted_reverse (\<lambda>x. length (fst x)) METRIC_ALIASES) =
     [19, 17, 13, 12, 11, 10, 9, 7, 6, 6, 6, 4, 3]"
    by (simp add: aliases_order)
  have scan: "find_metric query =
     map_option snd (List.find (\<lambda>x. sublist (fst x) (normalize_text query))
       (sorted_reverse (\<lambda>x. length (fst x)) METRIC_ALIASES))"
    by (simp add: find_metric_def Let_def)
  from order scan find_metric_alias[of query m] find_metric_longest[of b n query]
    find_metric_net_income[of query]
  show ?thesis by blast
qed

theorem find_metric_longest_first_witness:
  "find_metric ''Tesla NET  income 2024'' = Some ''Net Income (USD millions)'' \<and>
   (''net income'', ''Net Income (USD millions)'') \<in> set METRIC_ALIASES \<and>
   sublist ''net income'' (normalize_text ''Tesla NET  income 2024'') \<and>
   sublist ''income'' (normalize_text ''Tesla NET  income 2024'') \<and>
   map fst (filter (\<lambda>x. sublist (fst x) (normalize_text ''Tesla NET  income 2024'')) METRIC_ALIASES) =
     [''income'', ''net income''] \<and>
   (\<exists>a. (a, ''Net Income (USD millions)'') \<in> set METRIC_ALIASES \<and>
      sublist a (normalize_text ''Tesla NET  income 2024'') \<and>
      (\<forall>x \<in> set METRIC_ALIASES. sublist (fst x) (normalize_text ''Tesla NET  income 2024'') \<longrightarrow>
         length (fst x) \<le> length a))"
proof -
  have h1: "(''net income'', ''Net Income (USD millions)'') \<in> set METRIC_ALIASES" by code_simp
  have h2: "sublist ''net income'' (normalize_text ''Tesla NET  income 2024'')" by code_simp
  have h3: "\<forall>x \<in> set METRIC_ALIASES. sublist (fst x) (normalize_text ''Tesla NET  income 2024'') \<longrightarrow>
      fst x = ''net income'' \<or> length (fst x) < length ''net income''" by code_simp
  have h4: "sublist ''income'' (normalize_text ''Tesla NET  income 2024'')" by code_simp
  have h5: "map fst (filter (\<lambda>x. sublist (fst x) (normalize_text ''Tesla NET  income 2024'')) METRIC_ALIASES) =
     [''income'', ''net income'']" by code_simp
  note inst = find_metric_longest_first[of "''Tesla NET  income 2024''" "''Net Income (USD millions)''"
      "''net income''" "''Net Income (USD millions)''"]
  from inst h1 h2 h3 have r: "find_metric ''Tesla NET  income 2024'' = Some ''Net Income (USD millions)''"
    by blast
  with inst have "\<exists>a. (a, ''Net Income (USD millions)'') \<in> set METRIC_ALIASES \<and>
      sublist a (normalize_text ''Tesla NET  income 2024'') \<and>
      (\<forall>x \<in> set METRIC_ALIASES. sublist (fst x) (normalize_text ''Tesla NET  income 2024'') \<longrightarrow>
         length (fst x) \<le> length a)"
    by blast
  with r h1 h2 h4 h5 show ?thesis by blast
qed

text \<open>
  Claim C4 as stated fails. The query "net income total assets" contains the alias
  "net income" and the shorter alias "income", yet it resolves to the total-assets metric,
  because the still longer alias "total assets" is scanned first; the metric of
  "net income" is a different one.
\<close>

theorem find_metric_counterexample:
  "sublist ''net income'' (normalize_text ''net income total assets'') \<and>
   sublist ''income'' (normalize_text ''net income total assets'') \<and>
   map_of METRIC_ALIASES ''net income'' = Some ''Net Income (USD millions)'' \<and>
   find_metric ''net income total assets'' = Some ''Total Assets (USD millions)''"
  by code_simp

section \<open>Facts about the extractors and the loaded context\<close>

lemma find_metric_canonical:
  assumes "find_metric query = Some m"
  shows "m \<in> {''Total Revenue (USD millions)'', ''Net Income (USD millions)'',
    ''Total Assets (USD millions)'', ''Total Liabilities (USD millions)'',
    ''Operating Cash Flow (USD millions)''}"
proof -
  from find_metric_alias[OF assms] obtain a where "(a, m) \<in> set METRIC_ALIASES"
    by blast
  then show ?thesis
    by (auto simp: METRIC_ALIASES_def)
qed

lemma metric_columns_row_metric:
  "map_of metric_columns m = Some column \<Longrightarrow> row_metric r m = Inr (column r)"
  by (auto simp: metric_columns_def row_metric_def split: if_splits)

lemma find_metric_column:
  "find_metric query = Some m \<Longrightarrow> \<exists>column. map_of metric_columns m = Some column"
  by (drule find_metric_canonical) (auto simp: metric_columns_def)

lemma find_metric_row_metric:
  assumes "find_metric query = Some m"
  shows "row_metric r m = Inr (metric_value m r)"
proof -
  from find_metric_column[OF assms] obtain column where c: "map_of metric_columns m = Some column"
    by blast
  then show ?thesis
    by (simp add: metric_value_def metric_columns_row_metric[OF c])
qed

lemma find_metric_not_empty: "find_metric query = Some m \<Longrightarrow> m \<noteq> []"
  by (drule find_metric_canonical) auto

lemma digit_val_range: "is_digit c \<Longrightarrow> 0 \<le> digit_val c \<and> digit_val c \<le> 9"
  by (simp add: is_digit_def digit_val_def)

lemma find_year_Some:
  assumes "find_year query ys = Some y"
  shows "y \<in> set ys \<and> 2000 \<le> y \<and> y \<le> 2099"
proof -
  from assms obtain t where t: "search_20dd query = Some t" and y: "y = int_of_digits t" "y \<in> set ys"
    by (auto simp: find_year_def Let_def split: option.splits if_splits)
  from t have "t \<in> set (all_20dd query)"
    by (auto simp: search_20dd_all split: list.splits)
  from all_20dd_form[OF this] obtain c d where "t = [CHR ''2'', CHR ''0'', c, d]" "is_digit c" "is_digit d"
    by blast
  then have "2000 \<le> int_of_digits t \<and> int_of_digits t \<le> 2099"
    using digit_val_range[of c] digit_val_range[of d]
    by (simp add: int_of_digits_def digit_val_def)
  with y show ?thesis by simp
qed

lemma years_load_data: "set (years (load_data rs)) = Fiscal_Year ` set rs"
  by (simp add: load_data_def)

lemma companies_load_data: "set (companies (load_data rs)) = Company ` set rs"
  by (simp add: load_data_def)

lemma rows_load_data: "rows (load_data rs) = rs"
  by (simp add: load_data_def)

section \<open>Sorting with a key that may raise\<close>

lemma map_err_Inr: "(\<And>x. x \<in> set xs \<Longrightarrow> f x = Inr (g x)) \<Longrightarrow> map_err f xs = Inr (map g xs)"
  by (induction xs) simp_all

lemma insort_key_decorated:
  "insort_key fst (k x, x) (map (\<lambda>x. (k x, x)) ys) = map (\<lambda>x. (k x, x)) (insort_key k x ys)"
  by (induction ys) simp_all

lemma sort_key_decorated:
  "sort_key fst (map (\<lambda>x. (k x, x)) ys) = map (\<lambda>x. (k x, x)) (sort_key k ys)"
  by (induction ys) (simp_all add: insort_key_decorated)

lemma sorted_reverse_by_total:
  assumes "\<And>x. x \<in> set xs \<Longrightarrow> key x = Inr (k x)"
  shows "sorted_reverse_by key xs = Inr (sorted_reverse k xs)"
proof -
  have "map_err (\<lambda>x. case key x of Inl e \<Rightarrow> Inl e | Inr v \<Rightarrow> Inr (v, x)) xs = Inr (map (\<lambda>x. (k x, x)) xs)"
    by (rule map_err_Inr) (simp add: assms)
  moreover have "map snd (sorted_reverse fst (map (\<lambda>x. (k x, x)) xs)) = sorted_reverse k xs"
  proof -
    have "sort_key fst (rev (map (\<lambda>x. (k x, x)) xs)) = map (\<lambda>x. (k x, x)) (sort_key k (rev xs))"
      by (simp only: rev_map sort_key_decorated)
    then show ?thesis
      by (simp add: sorted_reverse_def rev_map comp_def)
  qed
  ultimately show ?thesis
    by (simp add: sorted_reverse_by_def)
qed

section \<open>The ranking handler\<close>

lemma sorted_reverse_head:
  fixes k :: "'a \<Rightarrow> 'k::linorder"
  assumes "xs \<noteq> []"
  shows "\<exists>top. first (sorted_reverse k xs) = Inr top \<and> top \<in> set xs \<and>
    (\<forall>x \<in> set xs. k x \<le> k top) \<and> List.find (\<lambda>x. k x = k top) xs = Some top"
proof -
  from assms have "sorted_reverse k xs \<noteq> []"
    by (metis length_sorted_reverse length_0_conv)
  then obtain top rest where srt: "sorted_reverse k xs = top # rest"
    by (cases "sorted_reverse k xs") auto
  then have f: "List.find (\<lambda>_. True) (sorted_reverse k xs) = Some top" by simp
  have mem: "top \<in> set xs"
    using srt set_sorted_reverse[of k xs] by (metis list.set_intros(1))
  have max: "\<forall>x \<in> set xs. k x \<le> k top"
    using find_descending_max[OF sorted_reverse_descending f] by (simp add: set_sorted_reverse)
  have "List.find (\<lambda>x. k x = k top) xs = Some top"
    using find_sorted_reverse_first[OF f] by simp
  with srt mem max show ?thesis
    by (simp add: first_def)
qed


lemma ranking_result:
  assumes m: "find_metric q = Some m" and y: "find_year q (years (load_data rs)) = Some y"
  shows "\<exists>top. ranking (load_data rs) q =
       Inr (''Top '' @ m @ '' in '' @ str_int y @ '': '' @ Company top @ '' with '' @
            money (metric_value m top) @ ''.'') \<and>
     top \<in> set rs \<and> Fiscal_Year top = y \<and>
     (\<forall>r \<in> set rs. Fiscal_Year r = y \<longrightarrow> metric_value m r \<le> metric_value m top) \<and>
     List.find (\<lambda>r. Fiscal_Year r = y \<and> metric_value m r = metric_value m top) rs = Some top"
proof -
  let ?yearly = "filter (\<lambda>r. Fiscal_Year r = y) rs"
  from find_year_Some[OF y] have yin: "y \<in> Fiscal_Year ` set rs" and y0: "y \<noteq> 0"
    by (simp_all add: years_load_data)
  then have ne: "?yearly \<noteq> []"
    by (auto simp: filter_empty_conv)
  have srt: "sorted_reverse_by (\<lambda>r. row_metric r m) ?yearly = Inr (sorted_reverse (metric_value m) ?yearly)"
    by (rule sorted_reverse_by_total) (rule find_metric_row_metric[OF m])
  from sorted_reverse_head[OF ne, of "metric_value m"] obtain top where
    top: "first (sorted_reverse (metric_value m) ?yearly) = Inr top" "top \<in> set ?yearly"
      "\<forall>x \<in> set ?yearly. metric_value m x \<le> metric_value m top"
      "List.find (\<lambda>x. metric_value m x = metric_value m top) ?yearly = Some top"
    by blast
  have "ranking (load_data rs) q =
       Inr (''Top '' @ m @ '' in '' @ str_int y @ '': '' @ Company top @ '' with '' @
            money (metric_value m top) @ ''.'')"
    using m y y0 find_metric_not_empty[OF m] srt top(1) find_metric_row_metric[OF m, of top]
    by (simp add: ranking_def Let_def truthy_str_def truthy_int_def rows_load_data)
  moreover have "List.find (\<lambda>r. Fiscal_Year r = y \<and> metric_value m r = metric_value m top) rs = Some top"
    using top(4) by (simp add: find_filter_eq)
  ultimately show ?thesis
    using top(2,3) by auto
qed



section \<open>The growth handler\<close>

lemma percent_change_total:
  "percent_change delta old =
    Inr (if old = 0 then 0 else round_double (round_double (delta / old) * 100))"
  by (simp add: percent_change_def float_div_def float_mul_def)












section \<open>The years of a growth query\<close>

lemma findall_subset_all: "set (findall_20dd s) \<subseteq> set (all_20dd s)"
proof (induction s rule: findall_20dd.induct)
  case (1 a b c d cs)
  have step: "set (all_20dd xs) \<subseteq> set (all_20dd (x # xs))" for x xs
    by (cases "(x # xs)" rule: all_20dd.cases) auto
  have "set (all_20dd cs) \<subseteq> set (all_20dd (b # c # d # cs))"
    using step[of cs d] step[of "d # cs" c] step[of "c # d # cs" b] by blast
  with 1 show ?case by auto
qed simp_all

lemma findall_empty_iff: "findall_20dd s = [] \<longleftrightarrow> all_20dd s = []"
  by (induction s rule: findall_20dd.induct) simp_all

lemma sorted_hd_Min: "sorted ys \<Longrightarrow> ys \<noteq> [] \<Longrightarrow> hd ys = Min (set ys)"
  by (cases ys) (auto intro!: Min_eqI[symmetric])

lemma sorted_last_Max: "sorted ys \<Longrightarrow> ys \<noteq> [] \<Longrightarrow> last ys = Max (set ys)"
proof (induction ys)
  case Nil
  then show ?case by simp
next
  case (Cons a ys)
  show ?case
  proof (cases "ys = []")
    case True
    then show ?thesis by simp
  next
    case False
    with Cons have "last ys = Max (set ys)" by simp
    moreover have "a \<le> Max (set ys)"
      using Cons.prems(1) False by (metis List.finite_set Max_ge last_in_set calculation sorted_simps(2))
    ultimately show ?thesis
      using False by (simp add: max_absorb2)
  qed
qed

lemma growth_years_facts:
  "set (growth_years q) = int_of_digits ` set (findall_20dd q) \<and> sorted (growth_years q) \<and>
   distinct (growth_years q)"
  by (simp add: growth_years_def)

lemma growth_dispatch:
  assumes "sublist ''growth'' (normalize_text query) \<or> sublist ''change'' (normalize_text query)"
    and "\<not> sublist ''list companies'' (normalize_text query)"
    and "\<not> sublist ''list years'' (normalize_text query)"
    and "\<not> sublist ''top'' (normalize_text query)"
    and "\<not> sublist ''highest'' (normalize_text query)"
    and "\<not> sublist ''compare'' (normalize_text query)"
  shows "handle_query ctx query = growth ctx (normalize_text query)"
proof -
  have "\<not> (sublist ''growth'' q \<or> sublist ''change'' q)"
    if "q \<in> {''help'', ''h'', ''?'', ''companies'', ''years''}" for q
    using that by (elim insertE emptyE; hypsubst) code_simp+
  with assms(1) have "normalize_text query \<notin> {''help'', ''h'', ''?'', ''companies'', ''years''}"
    by blast
  with assms show ?thesis
    by (auto simp: handle_query_def Let_def)
qed

lemma growth_result:
  assumes c: "find_company q (companies ctx) = Some c" "c \<noteq> []"
    and m: "find_metric q = Some m" and len: "2 \<le> length (growth_years q)"
  shows "growth ctx q =
    (if Min (set (growth_years q)) \<notin> set (years ctx) \<or> Max (set (growth_years q)) \<notin> set (years ctx)
     then Inr (''Available years are: '' @ join '', '' (map str_int (years ctx)))
     else (case (get_row ctx c (Min (set (growth_years q))), get_row ctx c (Max (set (growth_years q)))) of
             (Some r1, Some r2) \<Rightarrow>
               growth_report c m (Min (set (growth_years q))) (Max (set (growth_years q))) r1 r2
           | _ \<Rightarrow> Inr (''Missing data for '' @ c @ '' in '' @ str_int (Min (set (growth_years q))) @
                       '' or '' @ str_int (Max (set (growth_years q))) @ ''.'')))"
proof -
  let ?ys = "growth_years q"
  from len have ne: "?ys \<noteq> []" by auto
  have srt: "sorted ?ys" using growth_years_facts by blast
  have f: "first ?ys = Inr (Min (set ?ys))"
    using ne sorted_hd_Min[OF srt ne] by (cases ?ys) (simp_all add: first_def)
  have l: "last_item ?ys = Inr (Max (set ?ys))"
    using ne sorted_last_Max[OF srt ne] by (simp add: last_item_def)
  show ?thesis
    using c m len find_metric_not_empty[OF m]
    by (simp add: growth_def Let_def truthy_str_def f l)
qed

lemma match_at_Suc: "match_at (x # s) (Suc i) = match_at s i"
  by (simp add: match_at_def add.commute)

lemma match_at_0: "match_at (a # b # c # d # cs) 0 = is_20dd a b c d"
  by (simp add: match_at_def)

lemma match_positions_Cons:
  "match_positions (x # s) = (if match_at (x # s) 0 then [0] else []) @ map Suc (match_positions s)"
proof -
  have "[0..<length (x # s)] = 0 # map Suc [0..<length s]"
    by (simp add: upt_conv_Cons map_Suc_upt del: upt_Suc)
  then show ?thesis
    by (simp add: match_positions_def filter_map comp_def match_at_Suc del: upt_Suc)
qed

lemma match_positions_short: "length s < 4 \<Longrightarrow> match_positions s = []"
  by (simp add: match_positions_def match_at_def filter_empty_conv)

lemma leftmost_disjoint_shift:
  "leftmost_disjoint (map (\<lambda>i. i + k) ps) = map (\<lambda>i. i + k) (leftmost_disjoint ps)"
proof (induction ps rule: leftmost_disjoint.induct)
  case 1
  show ?case by simp
next
  case (2 p ps)
  have "filter (\<lambda>i. p + k + 4 \<le> i) (map (\<lambda>i. i + k) ps) = map (\<lambda>i. i + k) (filter (\<lambda>i. p + 4 \<le> i) ps)"
    by (simp add: filter_map comp_def)
  with 2 show ?case by simp
qed

lemma match_positions_behind:
  "filter (\<lambda>i. 4 \<le> i) (match_positions (a # b # c # d # cs)) = map (\<lambda>i. i + 4) (match_positions cs)"
proof -
  have "filter (\<lambda>i. 4 \<le> i) (map Suc (map Suc (map Suc (map Suc ps)))) = map (\<lambda>i. i + 4) ps" for ps
    by (induction ps) simp_all
  then show ?thesis
    by (simp add: match_positions_Cons[of a] match_positions_Cons[of b] match_positions_Cons[of c]
        match_positions_Cons[of d] filter_map comp_def)
qed

lemma findall_leftmost_disjoint:
  "findall_20dd s = map (\<lambda>i. take 4 (drop i s)) (leftmost_disjoint (match_positions s))"
proof (induction s rule: findall_20dd.induct)
  case (1 a b c d cs)
  let ?s = "a # b # c # d # cs"
  show ?case
  proof (cases "is_20dd a b c d")
    case True
    then have mp: "match_positions ?s = 0 # map Suc (match_positions (b # c # d # cs))"
      by (simp add: match_positions_Cons[of a] match_at_0)
    have "filter (\<lambda>i. 4 \<le> i) (map Suc (match_positions (b # c # d # cs))) =
        map (\<lambda>i. i + 4) (match_positions cs)"
      using match_positions_behind[of a b c d cs] by (simp add: mp)
    then have "leftmost_disjoint (match_positions ?s) =
        0 # map (\<lambda>i. i + 4) (leftmost_disjoint (match_positions cs))"
      by (simp add: mp leftmost_disjoint_shift)
    moreover have "drop (i + 4) ?s = drop i cs" for i
      by (simp add: eval_nat_numeral)
    ultimately show ?thesis
      using True "1.IH"(1) by (simp add: comp_def)
  next
    case False
    then have mp: "match_positions ?s = map (\<lambda>i. i + 1) (match_positions (b # c # d # cs))"
      by (simp add: match_positions_Cons[of a] match_at_0)
    have "leftmost_disjoint (match_positions ?s) =
        map (\<lambda>i. i + 1) (leftmost_disjoint (match_positions (b # c # d # cs)))"
      unfolding mp by (rule leftmost_disjoint_shift)
    with False "1.IH"(2) show ?thesis
      by (simp add: comp_def)
  qed
qed (simp_all add: match_positions_short)

text \<open>
  Claim C5. In a query that goes to the growth handler with a company and a metric
  extracted, the years are the numbers of the 20xx tokens of the query, whatever the
  dataset holds, without duplicates and in ascending order; the tokens are those at the
  places where the pattern matches, taken from the left, a place inside a token already
  taken being passed over. With at least two years, the handler takes the smallest and
  the largest as endpoints and no other; if either endpoint is not a year of the dataset
  the reply lists the available years, and otherwise the reply is computed from the first
  record of the company (in any letter case) for each of the two endpoints, or says that
  data is missing when the company has no record for one of them.
\<close>

theorem growth_endpoints:
  assumes "q = normalize_text query"
    and "sublist ''growth'' q \<or> sublist ''change'' q"
    and "\<not> sublist ''list companies'' q" and "\<not> sublist ''list years'' q"
    and "\<not> sublist ''top'' q" and "\<not> sublist ''highest'' q" and "\<not> sublist ''compare'' q"
    and "find_company q (companies ctx) = Some c" and "c \<noteq> []"
    and "find_metric q = Some m"
    and "2 \<le> length (growth_years q)"
  shows "set (growth_years q) =
       int_of_digits ` set (map (\<lambda>i. take 4 (drop i q)) (leftmost_disjoint (match_positions q))) \<and>
     findall_20dd q = map (\<lambda>i. take 4 (drop i q)) (leftmost_disjoint (match_positions q)) \<and>
     set (growth_years q) = int_of_digits ` set (findall_20dd q) \<and>
     set (findall_20dd q) \<subseteq> set (all_20dd q) \<and>
     sorted (growth_years q) \<and> distinct (growth_years q) \<and>
     handle_query ctx query =
      (if Min (set (growth_years q)) \<notin> set (years ctx) \<or> Max (set (growth_years q)) \<notin> set (years ctx)
       then Inr (''Available years are: '' @ join '', '' (map str_int (years ctx)))
       else (case (List.find (\<lambda>r. lower (Company r) = lower c \<and>
                              Fiscal_Year r = Min (set (growth_years q))) (rows ctx),
                   List.find (\<lambda>r. lower (Company r) = lower c \<and>
                              Fiscal_Year r = Max (set (growth_years q))) (rows ctx)) of
               (Some r1, Some r2) \<Rightarrow>
                 growth_report c m (Min (set (growth_years q))) (Max (set (growth_years q))) r1 r2
             | _ \<Rightarrow> Inr (''Missing data for '' @ c @ '' in '' @ str_int (Min (set (growth_years q))) @
                         '' or '' @ str_int (Max (set (growth_years q))) @ ''.'')))"
proof -
  have hq: "handle_query ctx query = growth ctx q"
    using assms(1-7) growth_dispatch by simp
  have fa: "findall_20dd q = map (\<lambda>i. take 4 (drop i q)) (leftmost_disjoint (match_positions q))"
    by (rule findall_leftmost_disjoint)
  have ys: "set (growth_years q) = int_of_digits ` set (findall_20dd q)"
    using growth_years_facts[of q] by blast
  have ys': "set (growth_years q) =
       int_of_digits ` set (map (\<lambda>i. take 4 (drop i q)) (leftmost_disjoint (match_positions q)))"
    using ys by (simp only: fa[symmetric])
  from ys' fa ys findall_subset_all[of q] growth_years_facts[of q]
    growth_result[OF assms(8-11), unfolded get_row_def] hq
  show ?thesis by (simp only: simp_thms)
qed

theorem growth_endpoints_witness:
  "(sublist ''growth'' (normalize_text ''Growth of Apple revenue 202520232030 2024'') \<or>
      sublist ''change'' (normalize_text ''Growth of Apple revenue 202520232030 2024'')) \<and>
   find_company (normalize_text ''Growth of Apple revenue 202520232030 2024'')
     (companies (load_data [sample_row ''Apple'' 2023 100, sample_row ''Apple'' 2025 150])) = Some ''Apple'' \<and>
   find_metric (normalize_text ''Growth of Apple revenue 202520232030 2024'') =
     Some ''Total Revenue (USD millions)'' \<and>
   match_positions ''growth of apple revenue 202520232030 2024'' = [24, 28, 32, 37] \<and>
   findall_20dd (normalize_text ''Growth of Apple revenue 202520232030 2024'') =
     [''2025'', ''2023'', ''2030'', ''2024''] \<and>
   growth_years (normalize_text ''Growth of Apple revenue 202520232030 2024'') =
     [2023, 2024, 2025, 2030] \<and>
   handle_query (load_data [sample_row ''Apple'' 2023 100, sample_row ''Apple'' 2025 150])
     ''Growth of Apple revenue 202520232030 2024'' = Inr ''Available years are: 2023, 2025'' \<and>
   match_positions ''20202025'' = [0, 2, 4] \<and> leftmost_disjoint [0, 2, 4] = [0, 4] \<and>
   findall_20dd ''20202025'' = [''2020'', ''2025''] \<and>
   handle_query (load_data [sample_row ''Apple'' 2023 100, sample_row ''Apple'' 2025 150])
     ''growth of Apple revenue 20232024 to 2025'' =
     Inr ''Apple Total Revenue (USD millions) changed from $100M (2023) to $150M (2025): +$50M (+50.00%).''"
proof -
  let ?ctx = "load_data [sample_row ''Apple'' 2023 100, sample_row ''Apple'' 2025 150]"
  let ?q = "normalize_text ''Growth of Apple revenue 202520232030 2024''"
  have nq: "?q = ''growth of apple revenue 202520232030 2024''" by code_simp
  have h2: "sublist ''growth'' ?q \<or> sublist ''change'' ?q" by code_simp
  have h3: "\<not> sublist ''list companies'' ?q" by code_simp
  have h4: "\<not> sublist ''list years'' ?q" by code_simp
  have h5: "\<not> sublist ''top'' ?q" by code_simp
  have h6: "\<not> sublist ''highest'' ?q" by code_simp
  have h7: "\<not> sublist ''compare'' ?q" by code_simp
  have h8: "find_company ?q (companies ?ctx) = Some ''Apple''"
    unfolding sample_row_def by code_simp
  have h9: "''Apple'' \<noteq> []" by simp
  have h10: "find_metric ?q = Some ''Total Revenue (USD millions)''" by code_simp
  have ys: "growth_years ?q = [2023, 2024, 2025, 2030]" by code_simp
  have h11: "2 \<le> length (growth_years ?q)" by (simp add: ys)
  have yc: "years ?ctx = [2023, 2025]"
    unfolding sample_row_def by code_simp
  have s: "str_int 2023 = ''2023''" "str_int 2025 = ''2025''" by code_simp+
  have mp: "match_positions ''growth of apple revenue 202520232030 2024'' = [24, 28, 32, 37]"
    by code_simp
  have tk: "map (\<lambda>i. take 4 (drop i ''growth of apple revenue 202520232030 2024''))
      (leftmost_disjoint [24, 28, 32, 37]) = [''2025'', ''2023'', ''2030'', ''2024'']"
    by code_simp
  note r = growth_endpoints[OF refl h2 h3 h4 h5 h6 h7 h8 h9 h10 h11]
  have fa: "findall_20dd ?q = [''2025'', ''2023'', ''2030'', ''2024'']"
    using r[THEN conjunct2, THEN conjunct1] by (simp only: nq mp tk)
  have hq: "handle_query ?ctx ''Growth of Apple revenue 202520232030 2024'' =
      Inr ''Available years are: 2023, 2025''"
    using r[THEN conjunct2, THEN conjunct2, THEN conjunct2, THEN conjunct2, THEN conjunct2,
      THEN conjunct2] by (simp add: ys yc s)
  have g1: "match_positions ''20202025'' = [0, 2, 4]" by code_simp
  have g2: "leftmost_disjoint [0, 2, 4] = [0, 4]" by code_simp
  have g3: "findall_20dd ''20202025'' = [''2020'', ''2025'']" by code_simp
  have e: "handle_query ?ctx ''growth of Apple revenue 20232024 to 2025'' =
     Inr ''Apple Total Revenue (USD millions) changed from $100M (2023) to $150M (2025): +$50M (+50.00%).''"
    unfolding sample_row_def by code_simp
  show ?thesis
    by (intro conjI h2 h8 h10 mp fa ys hq g1 g2 g3 e)
qed

section \<open>Point lookup and summary\<close>

lemma lookup_dispatch:
  assumes "normalize_text query \<notin> {''help'', ''h'', ''?'', ''companies'', ''years''}"
    and "\<not> sublist ''list companies'' (normalize_text query)"
    and "\<not> sublist ''list years'' (normalize_text query)"
    and "\<not> sublist ''top'' (normalize_text query)"
    and "\<not> sublist ''highest'' (normalize_text query)"
    and "\<not> sublist ''compare'' (normalize_text query)"
    and "\<not> sublist ''growth'' (normalize_text query)"
    and "\<not> sublist ''change'' (normalize_text query)"
  shows "handle_query ctx query = lookup_or_summary ctx (normalize_text query)"
  using assms by (auto simp: handle_query_def Let_def)

lemma get_row_Some:
  "get_row ctx c y = Some r \<Longrightarrow>
    r \<in> set (rows ctx) \<and> lower (Company r) = lower c \<and> Fiscal_Year r = y"
  unfolding get_row_def by (drule find_Some_first) simp

lemma get_row_None:
  "get_row ctx c y = None \<longleftrightarrow>
    \<not> (\<exists>r \<in> set (rows ctx). lower (Company r) = lower c \<and> Fiscal_Year r = y)"
  by (auto simp: get_row_def find_None_iff)

lemma lookup_result:
  assumes c: "find_company q (companies ctx) = Some c" "c \<noteq> []"
    and y: "find_year q (years ctx) = Some y" and m: "find_metric q = Some m"
  shows "lookup_or_summary ctx q =
    (case get_row ctx c y of
       None \<Rightarrow> Inr (''No data for '' @ c @ '' in '' @ str_int y @ ''.'')
     | Some r \<Rightarrow> Inr (c @ '' '' @ m @ '' in '' @ str_int y @ '': '' @ money (metric_value m r) @ ''.''))"
proof -
  from find_year_Some[OF y] have "y \<noteq> 0" by simp
  then show ?thesis
    using c y m find_metric_not_empty[OF m] find_metric_row_metric[OF m]
    by (simp add: lookup_or_summary_def Let_def truthy_str_def truthy_int_def split: option.splits)
qed

lemma apple_query_facts:
  "normalize_text ''Apple revenue 2025'' = ''apple revenue 2025''"
  "normalize_text ''apple revenue 2025'' = ''apple revenue 2025''"
  "find_metric ''apple revenue 2025'' = Some ''Total Revenue (USD millions)''"
  "search_20dd ''apple revenue 2025'' = Some ''2025''"
  "int_of_digits ''2025'' = 2025"
  "str_int 2025 = ''2025''"
  "money 400000 = ''$400,000M''"
  "''apple revenue 2025'' \<notin> {''help'', ''h'', ''?'', ''companies'', ''years''}"
  "\<not> sublist ''list companies'' ''apple revenue 2025''"
  "\<not> sublist ''list years'' ''apple revenue 2025''"
  "\<not> sublist ''top'' ''apple revenue 2025''"
  "\<not> sublist ''highest'' ''apple revenue 2025''"
  "\<not> sublist ''compare'' ''apple revenue 2025''"
  "\<not> sublist ''growth'' ''apple revenue 2025''"
  "\<not> sublist ''change'' ''apple revenue 2025''"
  by code_simp+

lemma lookup_general:
  assumes "q = normalize_text query" "q \<notin> {''help'', ''h'', ''?'', ''companies'', ''years''}"
      "\<not> sublist ''list companies'' q" "\<not> sublist ''list years'' q"
      "\<not> sublist ''top'' q" "\<not> sublist ''highest'' q" "\<not> sublist ''compare'' q"
      "\<not> sublist ''growth'' q" "\<not> sublist ''change'' q"
      "find_company q (companies ctx) = Some c" "c \<noteq> []"
      "find_year q (years ctx) = Some y" "find_metric q = Some m"
  shows "List.find (\<lambda>r. lower (Company r) = lower c \<and> Fiscal_Year r = y) (rows ctx) = Some r \<Longrightarrow>
         row_metric r m = Inr (metric_value m r) \<and>
         handle_query ctx query =
           Inr (c @ '' '' @ m @ '' in '' @ str_int y @ '': '' @ money (metric_value m r) @ ''.'')"
    and "\<forall>r \<in> set (rows ctx). \<not> (lower (Company r) = lower c \<and> Fiscal_Year r = y) \<Longrightarrow>
         handle_query ctx query = Inr (''No data for '' @ c @ '' in '' @ str_int y @ ''.'')"
    and "\<exists>column. map_of metric_columns m = Some column \<and> metric_value m = column"
proof -
  have hq: "handle_query ctx query = lookup_or_summary ctx q"
    unfolding assms(1) using assms(2-9) unfolding assms(1) by (rule lookup_dispatch)
  note lr = lookup_result[OF assms(10-13)]
  show "row_metric r m = Inr (metric_value m r) \<and>
         handle_query ctx query =
           Inr (c @ '' '' @ m @ '' in '' @ str_int y @ '': '' @ money (metric_value m r) @ ''.'')"
    if "List.find (\<lambda>r. lower (Company r) = lower c \<and> Fiscal_Year r = y) (rows ctx) = Some r"
  proof -
    from that have g: "get_row ctx c y = Some r"
      by (simp only: get_row_def)
    show ?thesis
      using find_metric_row_metric[OF assms(13), of r] by (simp only: hq lr g option.case simp_thms)
  qed
  show "handle_query ctx query = Inr (''No data for '' @ c @ '' in '' @ str_int y @ ''.'')"
    if "\<forall>r \<in> set (rows ctx). \<not> (lower (Company r) = lower c \<and> Fiscal_Year r = y)"
  proof -
    from that have g: "get_row ctx c y = None"
      unfolding get_row_None by blast
    show ?thesis
      by (simp only: hq lr g option.case)
  qed
  from find_metric_column[OF assms(13)]
  show "\<exists>column. map_of metric_columns m = Some column \<and> metric_value m = column"
    by (auto simp: metric_value_def fun_eq_iff)
qed

lemma lower_Apple: "lower ''Apple'' = ''apple''"
  by code_simp

lemma lookup_apple:
  assumes c: "find_company ''apple revenue 2025'' (companies ctx) = Some ''Apple''"
      and y: "2025 \<in> set (years ctx)"
      and r: "List.find (\<lambda>r. lower (Company r) = ''apple'' \<and> Fiscal_Year r = 2025) (rows ctx) = Some r0"
        "Total_Revenue r0 = 400000"
  shows "handle_query ctx ''Apple revenue 2025'' =
      Inr ''Apple Total Revenue (USD millions) in 2025: $400,000M.''"
proof -
  have fy: "find_year ''apple revenue 2025'' (years ctx) = Some 2025"
    unfolding find_year_def using y by (simp only: apple_query_facts(4,5) option.case Let_def if_True)
  have mv: "metric_value ''Total Revenue (USD millions)'' r0 = 400000"
    using r(2) by (simp add: metric_value_def metric_columns_def)
  have ne: "''Apple'' \<noteq> []" by simp
  have f: "List.find (\<lambda>r. lower (Company r) = lower ''Apple'' \<and> Fiscal_Year r = 2025) (rows ctx) = Some r0"
    using r(1) by (simp only: lower_Apple)
  have "handle_query ctx ''Apple revenue 2025'' =
      Inr (''Apple'' @ '' '' @ ''Total Revenue (USD millions)'' @ '' in '' @ str_int 2025 @ '': '' @
           money (metric_value ''Total Revenue (USD millions)'' r0) @ ''.'')"
    by (rule lookup_general(1)[OF apple_query_facts(1)[symmetric] apple_query_facts(8-15) c ne fy
          apple_query_facts(3) f, THEN conjunct2])
  then show ?thesis
    by (simp add: mv apple_query_facts(6,7))
qed

text \<open>
  Claim C2, as amended. Over the context loaded from the single record (Apple, 2025) with
  a total revenue of 400000, the query "Apple revenue 2025" is answered with
  "Apple Total Revenue (USD millions) in 2025: $400,000M."; so it is over every context
  with the year 2025 in which Apple is the company extracted from the query and the first
  record of Apple (in any letter case) for 2025 has that revenue. In general, when a
  query reaches the point lookup (no keyword of an earlier branch occurs in it) and
  company, year and metric are all extracted, the metric is the name of a metric column
  and the reply is "company metric in year: value." with the formatted value, in that
  column, of the first record whose company is the extracted one (in any letter case)
  and whose year is the extracted one, and the no-data message when no record is of that
  company and year.
\<close>

theorem point_lookup:
  "handle_query (load_data [sample_row ''Apple'' 2025 400000]) ''Apple revenue 2025'' =
     Inr ''Apple Total Revenue (USD millions) in 2025: $400,000M.'' \<and>
   (find_company ''apple revenue 2025'' (companies ctx) = Some ''Apple'' \<longrightarrow>
    2025 \<in> set (years ctx) \<longrightarrow>
    List.find (\<lambda>r. lower (Company r) = ''apple'' \<and> Fiscal_Year r = 2025) (rows ctx) = Some r0 \<longrightarrow>
    Total_Revenue r0 = 400000 \<longrightarrow>
      handle_query ctx ''Apple revenue 2025'' =
        Inr ''Apple Total Revenue (USD millions) in 2025: $400,000M.'') \<and>
   (q = normalize_text query \<longrightarrow>
    q \<notin> {''help'', ''h'', ''?'', ''companies'', ''years''} \<longrightarrow>
    \<not> sublist ''list companies'' q \<longrightarrow> \<not> sublist ''list years'' q \<longrightarrow>
    \<not> sublist ''top'' q \<longrightarrow> \<not> sublist ''highest'' q \<longrightarrow> \<not> sublist ''compare'' q \<longrightarrow>
    \<not> sublist ''growth'' q \<longrightarrow> \<not> sublist ''change'' q \<longrightarrow>
    find_company q (companies ctx) = Some c \<longrightarrow> c \<noteq> [] \<longrightarrow>
    find_year q (years ctx) = Some y \<longrightarrow> find_metric q = Some m \<longrightarrow>
      (\<exists>column. map_of metric_columns m = Some column \<and> metric_value m = column) \<and>
      (\<forall>r. List.find (\<lambda>r. lower (Company r) = lower c \<and> Fiscal_Year r = y) (rows ctx) = Some r \<longrightarrow>
         row_metric r m = Inr (metric_value m r) \<and>
         handle_query ctx query =
           Inr (c @ '' '' @ m @ '' in '' @ str_int y @ '': '' @ money (metric_value m r) @ ''.'')) \<and>
      ((\<forall>r \<in> set (rows ctx). \<not> (lower (Company r) = lower c \<and> Fiscal_Year r = y)) \<longrightarrow>
         handle_query ctx query = Inr (''No data for '' @ c @ '' in '' @ str_int y @ ''.'')))"
proof (intro conjI impI allI)
  show "handle_query (load_data [sample_row ''Apple'' 2025 400000]) ''Apple revenue 2025'' =
     Inr ''Apple Total Revenue (USD millions) in 2025: $400,000M.''"
    unfolding sample_row_def by code_simp
next
  assume "find_company ''apple revenue 2025'' (companies ctx) = Some ''Apple''"
    "2025 \<in> set (years ctx)"
    "List.find (\<lambda>r. lower (Company r) = ''apple'' \<and> Fiscal_Year r = 2025) (rows ctx) = Some r0"
    "Total_Revenue r0 = 400000"
  then show "handle_query ctx ''Apple revenue 2025'' =
      Inr ''Apple Total Revenue (USD millions) in 2025: $400,000M.''"
    by (rule lookup_apple)
next
  assume h: "q = normalize_text query" "q \<notin> {''help'', ''h'', ''?'', ''companies'', ''years''}"
    "\<not> sublist ''list companies'' q" "\<not> sublist ''list years'' q"
    "\<not> sublist ''top'' q" "\<not> sublist ''highest'' q" "\<not> sublist ''compare'' q"
    "\<not> sublist ''growth'' q" "\<not> sublist ''change'' q"
    "find_company q (companies ctx) = Some c" "c \<noteq> []"
    "find_year q (years ctx) = Some y" "find_metric q = Some m"
  show "\<exists>column. map_of metric_columns m = Some column \<and> metric_value m = column"
    by (rule lookup_general(3)[OF h])
  {
    fix r
    assume g: "List.find (\<lambda>r. lower (Company r) = lower c \<and> Fiscal_Year r = y) (rows ctx) = Some r"
    show "row_metric r m = Inr (metric_value m r)"
      by (rule lookup_general(1)[OF h g, THEN conjunct1])
    show "handle_query ctx query =
        Inr (c @ '' '' @ m @ '' in '' @ str_int y @ '': '' @ money (metric_value m r) @ ''.'')"
      by (rule lookup_general(1)[OF h g, THEN conjunct2])
  }
  {
    assume g: "\<forall>r \<in> set (rows ctx). \<not> (lower (Company r) = lower c \<and> Fiscal_Year r = y)"
    show "handle_query ctx query = Inr (''No data for '' @ c @ '' in '' @ str_int y @ ''.'')"
      by (rule lookup_general(2)[OF h g])
  }
qed

theorem point_lookup_witness:
  "find_company ''apple revenue 2025''
     (companies (load_data [metric_row ''Tesla'' 2024 90 3 1 2 3, metric_row ''Tesla'' 2025 100 7 4 5 6,
        metric_row ''Apple'' 2025 400000 8 7 8 9])) = Some ''Apple'' \<and>
   2025 \<in> set (years (load_data [metric_row ''Tesla'' 2024 90 3 1 2 3,
        metric_row ''Tesla'' 2025 100 7 4 5 6, metric_row ''Apple'' 2025 400000 8 7 8 9])) \<and>
   List.find (\<lambda>r. lower (Company r) = ''apple'' \<and> Fiscal_Year r = 2025)
     (rows (load_data [metric_row ''Tesla'' 2024 90 3 1 2 3, metric_row ''Tesla'' 2025 100 7 4 5 6,
        metric_row ''Apple'' 2025 400000 8 7 8 9])) = Some (metric_row ''Apple'' 2025 400000 8 7 8 9) \<and>
   Total_Revenue (metric_row ''Apple'' 2025 400000 8 7 8 9) = 400000 \<and>
   handle_query (load_data [metric_row ''Tesla'' 2024 90 3 1 2 3, metric_row ''Tesla'' 2025 100 7 4 5 6,
        metric_row ''Apple'' 2025 400000 8 7 8 9])
     ''Apple revenue 2025'' = Inr ''Apple Total Revenue (USD millions) in 2025: $400,000M.'' \<and>
   find_company (normalize_text ''Tesla profit 2025'')
     (companies (load_data [metric_row ''Tesla'' 2024 90 3 1 2 3, metric_row ''Tesla'' 2025 100 7 4 5 6,
        metric_row ''Apple'' 2025 400000 8 7 8 9])) = Some ''Tesla'' \<and>
   find_year (normalize_text ''Tesla profit 2025'')
     (years (load_data [metric_row ''Tesla'' 2024 90 3 1 2 3, metric_row ''Tesla'' 2025 100 7 4 5 6,
        metric_row ''Apple'' 2025 400000 8 7 8 9])) = Some 2025 \<and>
   find_metric (normalize_text ''Tesla profit 2025'') = Some ''Net Income (USD millions)'' \<and>
   List.find (\<lambda>r. lower (Company r) = lower ''Tesla'' \<and> Fiscal_Year r = 2025)
     (rows (load_data [metric_row ''Tesla'' 2024 90 3 1 2 3, metric_row ''Tesla'' 2025 100 7 4 5 6,
        metric_row ''Apple'' 2025 400000 8 7 8 9])) = Some (metric_row ''Tesla'' 2025 100 7 4 5 6) \<and>
   metric_value ''Net Income (USD millions)'' (metric_row ''Tesla'' 2025 100 7 4 5 6) = 7 \<and>
   handle_query (load_data [metric_row ''Tesla'' 2024 90 3 1 2 3, metric_row ''Tesla'' 2025 100 7 4 5 6,
        metric_row ''Apple'' 2025 400000 8 7 8 9])
     ''Tesla profit 2025'' = Inr ''Tesla Net Income (USD millions) in 2025: $7M.'' \<and>
   find_company (normalize_text ''apple DEBT 2024'')
     (companies (load_data [metric_row ''Tesla'' 2024 90 3 1 2 3, metric_row ''Tesla'' 2025 100 7 4 5 6,
        metric_row ''Apple'' 2025 400000 8 7 8 9])) = Some ''Apple'' \<and>
   find_year (normalize_text ''apple DEBT 2024'')
     (years (load_data [metric_row ''Tesla'' 2024 90 3 1 2 3, metric_row ''Tesla'' 2025 100 7 4 5 6,
        metric_row ''Apple'' 2025 400000 8 7 8 9])) = Some 2024 \<and>
   find_metric (normalize_text ''apple DEBT 2024'') = Some ''Total Liabilities (USD millions)'' \<and>
   filter (\<lambda>r. lower (Company r) = lower ''Apple'' \<and> Fiscal_Year r = 2024)
     (rows (load_data [metric_row ''Tesla'' 2024 90 3 1 2 3, metric_row ''Tesla'' 2025 100 7 4 5 6,
        metric_row ''Apple'' 2025 400000 8 7 8 9])) = [] \<and>
   handle_query (load_data [metric_row ''Tesla'' 2024 90 3 1 2 3, metric_row ''Tesla'' 2025 100 7 4 5 6,
        metric_row ''Apple'' 2025 400000 8 7 8 9])
     ''apple DEBT 2024'' = Inr ''No data for Apple in 2024.''"
proof -
  let ?ctx = "load_data [metric_row ''Tesla'' 2024 90 3 1 2 3, metric_row ''Tesla'' 2025 100 7 4 5 6,
        metric_row ''Apple'' 2025 400000 8 7 8 9]"
  let ?q = "normalize_text ''Tesla profit 2025''"
  let ?p = "normalize_text ''apple DEBT 2024''"
  have a1: "find_company ''apple revenue 2025'' (companies ?ctx) = Some ''Apple''"
    unfolding metric_row_def by code_simp
  have a2: "2025 \<in> set (years ?ctx)"
    unfolding metric_row_def by code_simp
  have a3: "List.find (\<lambda>r. lower (Company r) = ''apple'' \<and> Fiscal_Year r = 2025) (rows ?ctx) =
      Some (metric_row ''Apple'' 2025 400000 8 7 8 9)"
    unfolding metric_row_def by code_simp
  have a4: "Total_Revenue (metric_row ''Apple'' 2025 400000 8 7 8 9) = 400000"
    by (simp add: metric_row_def)
  note apple = point_lookup[of ?ctx "metric_row ''Apple'' 2025 400000 8 7 8 9", THEN conjunct2,
      THEN conjunct1, rule_format]
  have a: "handle_query ?ctx ''Apple revenue 2025'' =
      Inr ''Apple Total Revenue (USD millions) in 2025: $400,000M.''"
    by (rule apple[OF a1 a2 a3 a4])
  have b0: "?q \<notin> {''help'', ''h'', ''?'', ''companies'', ''years''}" by code_simp
  have b1: "\<not> sublist ''list companies'' ?q" "\<not> sublist ''list years'' ?q"
    "\<not> sublist ''top'' ?q" "\<not> sublist ''highest'' ?q" "\<not> sublist ''compare'' ?q"
    "\<not> sublist ''growth'' ?q" "\<not> sublist ''change'' ?q"
    by code_simp+
  have b2: "find_company ?q (companies ?ctx) = Some ''Tesla''"
    unfolding metric_row_def by code_simp
  have b3: "find_year ?q (years ?ctx) = Some 2025"
    unfolding metric_row_def by code_simp
  have b4: "find_metric ?q = Some ''Net Income (USD millions)''" by code_simp
  have b5: "List.find (\<lambda>r. lower (Company r) = lower ''Tesla'' \<and> Fiscal_Year r = 2025) (rows ?ctx) =
      Some (metric_row ''Tesla'' 2025 100 7 4 5 6)"
    unfolding metric_row_def by code_simp
  have b6: "metric_value ''Net Income (USD millions)'' (metric_row ''Tesla'' 2025 100 7 4 5 6) = 7"
    by (simp add: metric_value_def metric_columns_def metric_row_def)
  have s: "str_int 2025 = ''2025''" "money 7 = ''$7M''" "str_int 2024 = ''2024''" by code_simp+
  note general = point_lookup[of ?ctx _ ?q "''Tesla profit 2025''" "''Tesla''" 2025
      "''Net Income (USD millions)''", THEN conjunct2, THEN conjunct2, rule_format]
  have t: "''Tesla'' \<noteq> []" by simp
  have "handle_query ?ctx ''Tesla profit 2025'' =
      Inr (''Tesla'' @ '' '' @ ''Net Income (USD millions)'' @ '' in '' @ str_int 2025 @ '': '' @
           money (metric_value ''Net Income (USD millions)'' (metric_row ''Tesla'' 2025 100 7 4 5 6)) @ ''.'')"
    using general[OF refl b0 b1 b2 t b3 b4, THEN conjunct2, THEN conjunct1, rule_format, OF b5]
    by (rule conjunct2)
  then have b: "handle_query ?ctx ''Tesla profit 2025'' = Inr ''Tesla Net Income (USD millions) in 2025: $7M.''"
    by (simp add: b6 s)
  have c0: "?p \<notin> {''help'', ''h'', ''?'', ''companies'', ''years''}" by code_simp
  have c1: "\<not> sublist ''list companies'' ?p" "\<not> sublist ''list years'' ?p"
    "\<not> sublist ''top'' ?p" "\<not> sublist ''highest'' ?p" "\<not> sublist ''compare'' ?p"
    "\<not> sublist ''growth'' ?p" "\<not> sublist ''change'' ?p"
    by code_simp+
  have c2: "find_company ?p (companies ?ctx) = Some ''Apple''"
    unfolding metric_row_def by code_simp
  have c3: "find_year ?p (years ?ctx) = Some 2024"
    unfolding metric_row_def by code_simp
  have c4: "find_metric ?p = Some ''Total Liabilities (USD millions)''" by code_simp
  have c5: "filter (\<lambda>r. lower (Company r) = lower ''Apple'' \<and> Fiscal_Year r = 2024) (rows ?ctx) = []"
    unfolding metric_row_def by code_simp
  then have c6: "\<forall>r \<in> set (rows ?ctx). \<not> (lower (Company r) = lower ''Apple'' \<and> Fiscal_Year r = 2024)"
    by (simp only: filter_empty_conv)
  note none = point_lookup[of ?ctx _ ?p "''apple DEBT 2024''" "''Apple''" 2024
      "''Total Liabilities (USD millions)''", THEN conjunct2, THEN conjunct2, rule_format]
  have u: "''Apple'' \<noteq> []" by simp
  have "handle_query ?ctx ''apple DEBT 2024'' = Inr (''No data for '' @ ''Apple'' @ '' in '' @ str_int 2024 @ ''.'')"
    using none[OF refl c0 c1 c2 u c3 c4, THEN conjunct2, THEN conjunct2, rule_format, OF c6[rule_format]]
    by this
  then have c: "handle_query ?ctx ''apple DEBT 2024'' = Inr ''No data for Apple in 2024.''"
    by (simp add: s)
  show ?thesis
    by (intro conjI a1 a2 a3 a4 a b2 b3 b4 b5 b6 b c2 c3 c4 c5 c)
qed

text \<open>
  Claim C2 as stated fails: a context can hold a record (Apple, 2025) with a total revenue
  of 400000 and the query "Apple revenue 2025" get another reply. With a company App in
  the data the company extracted from the query is App, which comes first in the sorted
  list and is a substring of the query; and of two records of (Apple, 2025) the first in
  dataset order is the one reported.
\<close>

theorem point_lookup_counterexample:
  "sample_row ''Apple'' 2025 400000 \<in>
     set (rows (load_data [sample_row ''Apple'' 2025 400000, sample_row ''App'' 2025 1])) \<and>
   Total_Revenue (sample_row ''Apple'' 2025 400000) = 400000 \<and>
   handle_query (load_data [sample_row ''Apple'' 2025 400000, sample_row ''App'' 2025 1])
     ''Apple revenue 2025'' = Inr ''App Total Revenue (USD millions) in 2025: $1M.'' \<and>
   sample_row ''Apple'' 2025 400000 \<in>
     set (rows (load_data [sample_row ''Apple'' 2025 5, sample_row ''Apple'' 2025 400000])) \<and>
   handle_query (load_data [sample_row ''Apple'' 2025 5, sample_row ''Apple'' 2025 400000])
     ''Apple revenue 2025'' = Inr ''Apple Total Revenue (USD millions) in 2025: $5M.''"
  unfolding sample_row_def by code_simp

lemma py_max_Max: "ys \<noteq> [] \<Longrightarrow> py_max ys = Inr (Max (set ys))"
  by (cases ys) (simp_all add: py_max_def Max.set_eq_fold[symmetric])

lemma find_company_mem: "find_company q cs = Some c \<Longrightarrow> c \<in> set cs"
  unfolding find_company_def Let_def by (drule find_Some_first) simp

lemma years_not_empty:
  assumes "find_company q (companies (load_data rs)) = Some c"
  shows "years (load_data rs) \<noteq> []"
proof -
  from find_company_mem[OF assms] have "rs \<noteq> []"
    by (auto simp: companies_load_data)
  then have "set (years (load_data rs)) \<noteq> {}"
    by (simp add: years_load_data)
  then show ?thesis by auto
qed

lemma summary_result:
  assumes c: "find_company q (companies (load_data rs)) = Some c" "c \<noteq> []"
    and kw: "sublist ''summary'' q \<or> sublist ''overview'' q"
    and nl: "find_year q (years (load_data rs)) = None \<or> find_metric q = None"
  shows "lookup_or_summary (load_data rs) q =
    (case get_row (load_data rs) c (Max (set (years (load_data rs)))) of
       None \<Rightarrow> Inr (''No summary available for '' @ c @ ''.'')
     | Some r \<Rightarrow> Inr (summary_text c (Max (set (years (load_data rs)))) r))"
proof -
  note pm = py_max_Max[OF years_not_empty[OF c(1)]]
  from nl show ?thesis
  proof
    assume "find_year q (years (load_data rs)) = None"
    then show ?thesis
      using kw c by (simp add: lookup_or_summary_def Let_def truthy_int_def truthy_str_def pm)
  next
    assume "find_metric q = None"
    then show ?thesis
      using kw c by (simp add: lookup_or_summary_def Let_def truthy_int_def truthy_str_def pm)
  qed
qed

lemma main_step_context: "fst (main_step ctx line) = ctx"
  by (simp add: main_step_def Let_def split: sum.splits)

text \<open>
  Claim C10. Let a query reach the summary branch over a loaded context: it has no keyword
  of an earlier branch, a company is extracted, it contains "summary" or "overview", and
  the point lookup does not fire because no year or no metric is extracted. If the company
  has no record for the largest year of the dataset, the reply is
  "No summary available for company." and not the summary block, and the pass of the main
  loop that answers the query hands the same context on to the next pass.
\<close>

theorem summary_without_latest_record:
  assumes "q = normalize_text query"
    and "q \<notin> {''help'', ''h'', ''?'', ''companies'', ''years''}"
    and "\<not> sublist ''list companies'' q" and "\<not> sublist ''list years'' q"
    and "\<not> sublist ''top'' q" and "\<not> sublist ''highest'' q" and "\<not> sublist ''compare'' q"
    and "\<not> sublist ''growth'' q" and "\<not> sublist ''change'' q"
    and "find_company q (companies (load_data rs)) = Some c" and "c \<noteq> []"
    and "sublist ''summary'' q \<or> sublist ''overview'' q"
    and "find_year q (years (load_data rs)) = None \<or> find_metric q = None"
    and "\<not> (\<exists>r \<in> set rs. lower (Company r) = lower c \<and> Fiscal_Year r = Max (Fiscal_Year ` set rs))"
  shows "handle_query (load_data rs) query = Inr (''No summary available for '' @ c @ ''.'') \<and>
    handle_query (load_data rs) query \<noteq> Inr (summary_text c (Max (Fiscal_Year ` set rs)) r) \<and>
    fst (main_step (load_data rs) query) = load_data rs"
proof -
  have hq: "handle_query (load_data rs) query = lookup_or_summary (load_data rs) q"
    unfolding assms(1) using assms(2-9) unfolding assms(1) by (rule lookup_dispatch)
  have "get_row (load_data rs) c (Max (set (years (load_data rs)))) = None"
    using assms(14) by (simp add: get_row_None years_load_data rows_load_data)
  with summary_result[OF assms(10-13)]
  have r: "handle_query (load_data rs) query = Inr (''No summary available for '' @ c @ ''.'')"
    by (simp add: hq)
  have "''No summary available for '' @ c @ ''.'' \<noteq> summary_text c (Max (Fiscal_Year ` set rs)) r"
  proof
    assume "''No summary available for '' @ c @ ''.'' = summary_text c (Max (Fiscal_Year ` set rs)) r"
    then have "length (''No summary available for '' @ c @ ''.'') =
        length (summary_text c (Max (Fiscal_Year ` set rs)) r)"
      by simp
    then show False
      by (simp add: summary_text_def)
  qed
  with r main_step_context show ?thesis
    by simp
qed

theorem summary_without_latest_record_witness:
  "normalize_text ''Apple summary'' \<notin> {''help'', ''h'', ''?'', ''companies'', ''years''} \<and>
   find_company (normalize_text ''Apple summary'')
     (companies (load_data [sample_row ''Apple'' 2024 10, sample_row ''Tesla'' 2025 20])) = Some ''Apple'' \<and>
   (sublist ''summary'' (normalize_text ''Apple summary'') \<or>
      sublist ''overview'' (normalize_text ''Apple summary'')) \<and>
   (find_year (normalize_text ''Apple summary'')
      (years (load_data [sample_row ''Apple'' 2024 10, sample_row ''Tesla'' 2025 20])) = None \<or>
    find_metric (normalize_text ''Apple summary'') = None) \<and>
   \<not> (\<exists>r \<in> set [sample_row ''Apple'' 2024 10, sample_row ''Tesla'' 2025 20].
        lower (Company r) = lower ''Apple'' \<and>
        Fiscal_Year r = Max (Fiscal_Year ` set [sample_row ''Apple'' 2024 10, sample_row ''Tesla'' 2025 20])) \<and>
   handle_query (load_data [sample_row ''Apple'' 2024 10, sample_row ''Tesla'' 2025 20]) ''Apple summary'' =
     Inr ''No summary available for Apple.'' \<and>
   fst (main_step (load_data [sample_row ''Apple'' 2024 10, sample_row ''Tesla'' 2025 20]) ''Apple summary'') =
     load_data [sample_row ''Apple'' 2024 10, sample_row ''Tesla'' 2025 20]"
proof -
  let ?rs = "[sample_row ''Apple'' 2024 10, sample_row ''Tesla'' 2025 20]"
  let ?q = "normalize_text ''Apple summary''"
  have h2: "?q \<notin> {''help'', ''h'', ''?'', ''companies'', ''years''}" by code_simp
  have h3: "\<not> sublist ''list companies'' ?q" "\<not> sublist ''list years'' ?q"
    "\<not> sublist ''top'' ?q" "\<not> sublist ''highest'' ?q" "\<not> sublist ''compare'' ?q"
    "\<not> sublist ''growth'' ?q" "\<not> sublist ''change'' ?q"
    by code_simp+
  have h10: "find_company ?q (companies (load_data ?rs)) = Some ''Apple''"
    unfolding sample_row_def by code_simp
  have h11: "''Apple'' \<noteq> []" by simp
  have h12: "sublist ''summary'' ?q \<or> sublist ''overview'' ?q" by code_simp
  have h13: "find_year ?q (years (load_data ?rs)) = None \<or> find_metric ?q = None"
    unfolding sample_row_def by code_simp
  have h14: "\<not> (\<exists>r \<in> set ?rs. lower (Company r) = lower ''Apple'' \<and>
      Fiscal_Year r = Max (Fiscal_Year ` set ?rs))"
    unfolding sample_row_def by code_simp
  note r = summary_without_latest_record[OF refl h2 h3 h10 h11 h12 h13 h14]
  have a: "handle_query (load_data ?rs) ''Apple summary'' = Inr ''No summary available for Apple.''"
    using r[THEN conjunct1] by simp
  have b: "fst (main_step (load_data ?rs) ''Apple summary'') = load_data ?rs"
    by (rule r[THEN conjunct2, THEN conjunct2])
  show ?thesis
    by (intro conjI h2 h10 h12 h13 h14 a b)
qed

section \<open>Every query gets a reply\<close>

lemma truthy_str_Some: "truthy_str s \<Longrightarrow> \<exists>t. s = Some t \<and> t \<noteq> []"
  by (cases s) (simp_all add: truthy_str_def)

lemma truthy_int_Some: "truthy_int y \<Longrightarrow> \<exists>n. y = Some n \<and> n \<noteq> 0"
  by (cases y) (simp_all add: truthy_int_def)

lemma ranking_total: "\<exists>s. ranking (load_data rs) q = Inr s"
proof (cases "truthy_str (find_metric q) \<and> truthy_int (find_year q (years (load_data rs)))")
  case True
  then obtain m y where "find_metric q = Some m" "find_year q (years (load_data rs)) = Some y"
    using truthy_str_Some truthy_int_Some by blast
  from ranking_result[OF this] show ?thesis by blast
next
  case False
  then show ?thesis
    by (auto simp: ranking_def Let_def)
qed

lemma comparison_result:
  assumes m: "find_metric q = Some m" and y: "find_year q (years ctx) = Some y"
  shows "comparison ctx q =
    Inr (join [CHR 0x0A] ((m @ '' in '' @ str_int y @ '':'') #
      map (\<lambda>r. ''- '' @ Company r @ '': '' @ money (metric_value m r))
        (sorted_reverse (metric_value m) (filter (\<lambda>r. Fiscal_Year r = y) (rows ctx)))))"
proof -
  let ?yearly = "filter (\<lambda>r. Fiscal_Year r = y) (rows ctx)"
  from find_year_Some[OF y] have y0: "y \<noteq> 0" by simp
  have srt: "sorted_reverse_by (\<lambda>r. row_metric r m) ?yearly = Inr (sorted_reverse (metric_value m) ?yearly)"
    by (rule sorted_reverse_by_total) (rule find_metric_row_metric[OF m])
  have ls: "map_err (\<lambda>r. case row_metric r m of Inl e \<Rightarrow> Inl e
        | Inr v \<Rightarrow> Inr (''- '' @ Company r @ '': '' @ money v)) xs =
      Inr (map (\<lambda>r. ''- '' @ Company r @ '': '' @ money (metric_value m r)) xs)" for xs
    by (rule map_err_Inr) (simp add: find_metric_row_metric[OF m])
  show ?thesis
    using m y y0 find_metric_not_empty[OF m]
    by (simp add: comparison_def Let_def truthy_str_def truthy_int_def srt ls)
qed

lemma comparison_total: "\<exists>s. comparison ctx q = Inr s"
proof (cases "truthy_str (find_metric q) \<and> truthy_int (find_year q (years ctx))")
  case True
  then obtain m y where "find_metric q = Some m" "find_year q (years ctx) = Some y"
    using truthy_str_Some truthy_int_Some by blast
  from comparison_result[OF this] show ?thesis by blast
next
  case False
  then show ?thesis
    by (auto simp: comparison_def Let_def)
qed

lemma growth_report_total:
  assumes "find_metric q = Some m"
  shows "\<exists>s. growth_report c m y1 y2 r1 r2 = Inr s"
  by (simp add: growth_report_def Let_def find_metric_row_metric[OF assms] percent_change_total)

lemma growth_total: "\<exists>s. growth ctx q = Inr s"
proof (cases "truthy_str (find_company q (companies ctx)) \<and> truthy_str (find_metric q) \<and>
    2 \<le> length (growth_years q)")
  case True
  then obtain c m where c: "find_company q (companies ctx) = Some c" "c \<noteq> []"
    and m: "find_metric q = Some m" and len: "2 \<le> length (growth_years q)"
    using truthy_str_Some by blast
  show ?thesis
    unfolding growth_result[OF c m len]
    using growth_report_total[OF m] by (simp split: option.splits)
next
  case False
  then show ?thesis
    by (auto simp: growth_def Let_def)
qed

lemma lookup_total: "\<exists>s. lookup_or_summary (load_data rs) q = Inr s"
proof (cases "truthy_str (find_company q (companies (load_data rs))) \<and>
    truthy_int (find_year q (years (load_data rs))) \<and> truthy_str (find_metric q)")
  case True
  then obtain c y m where c: "find_company q (companies (load_data rs)) = Some c" "c \<noteq> []"
    and y: "find_year q (years (load_data rs)) = Some y" and m: "find_metric q = Some m"
    using truthy_str_Some truthy_int_Some by blast
  show ?thesis
    unfolding lookup_result[OF c y m] by (simp split: option.splits)
next
  case False
  note no_lookup = this
  show ?thesis
  proof (cases "truthy_str (find_company q (companies (load_data rs))) \<and>
      (sublist ''summary'' q \<or> sublist ''overview'' q)")
    case True
    then obtain c where c: "find_company q (companies (load_data rs)) = Some c" "c \<noteq> []"
      using truthy_str_Some by blast
    note pm = py_max_Max[OF years_not_empty[OF c(1)]]
    have body: "\<exists>s. (case py_max (years (load_data rs)) of Inl e \<Rightarrow> Inl e
        | Inr latest \<Rightarrow> (case get_row (load_data rs) c latest of
            None \<Rightarrow> Inr (''No summary available for '' @ c @ ''.'')
          | Some r \<Rightarrow> Inr (summary_text c latest r))) = Inr s"
      by (simp add: pm split: option.splits)
    have cond: "\<not> (truthy_str (Some c) \<and> truthy_int (find_year q (years (load_data rs))) \<and>
        truthy_str (find_metric q))"
      using no_lookup by (simp add: c(1))
    have kw: "truthy_str (Some c) \<and> (sublist ''summary'' q \<or> sublist ''overview'' q)"
      using True by (simp add: c(1))
    show ?thesis
      unfolding lookup_or_summary_def Let_def c(1) if_not_P[OF cond] if_P[OF kw] option.case
      by (rule body)
  next
    case False
    show ?thesis
      unfolding lookup_or_summary_def Let_def if_not_P[OF no_lookup] if_not_P[OF False]
      by blast
  qed
qed

lemma handle_query_total: "\<exists>s. handle_query (load_data rs) query = Inr s"
  using ranking_total comparison_total growth_total lookup_total
  by (simp add: handle_query_def Let_def)

text \<open>
  Claim C1. For every context built by \<open>load_data\<close> and every query, \<open>handle_query\<close>
  returns a reply and no error. In particular a year returned by \<open>find_year\<close> is a year
  of the context's year list and the year of at least one record, so the records filtered
  to that year, which the ranking and comparison branches sort and index, are not empty.
\<close>

theorem handle_query_never_raises:
  "(\<exists>s. handle_query (load_data rs) query = Inr s) \<and>
   (find_year q (years (load_data rs)) = Some y \<longrightarrow>
      y \<in> set (years (load_data rs)) \<and> (\<exists>r \<in> set rs. Fiscal_Year r = y) \<and>
      filter (\<lambda>r. Fiscal_Year r = y) (rows (load_data rs)) \<noteq> [])"
proof (intro conjI impI)
  show "\<exists>s. handle_query (load_data rs) query = Inr s"
    by (rule handle_query_total)
next
  assume "find_year q (years (load_data rs)) = Some y"
  from find_year_Some[OF this] have "y \<in> set (years (load_data rs))" by simp
  then show "y \<in> set (years (load_data rs))"
    and "\<exists>r \<in> set rs. Fiscal_Year r = y"
    and "filter (\<lambda>r. Fiscal_Year r = y) (rows (load_data rs)) \<noteq> []"
    by (auto simp: years_load_data rows_load_data filter_empty_conv)
qed

theorem handle_query_never_raises_witness:
  "find_year ''compare revenue 2025''
     (years (load_data [sample_row ''Apple'' 2024 10, sample_row ''Tesla'' 2025 20])) = Some 2025 \<and>
   (\<exists>r \<in> set [sample_row ''Apple'' 2024 10, sample_row ''Tesla'' 2025 20]. Fiscal_Year r = 2025) \<and>
   (\<exists>s. handle_query (load_data [sample_row ''Apple'' 2024 10, sample_row ''Tesla'' 2025 20])
      ''compare revenue 2025'' = Inr s) \<and>
   handle_query (load_data [sample_row ''Apple'' 2024 10, sample_row ''Tesla'' 2025 20])
      ''compare revenue 2025'' = Inr (''Total Revenue (USD millions) in 2025:'' @ [CHR 0x0A] @ ''- Tesla: $20M'') \<and>
   (\<exists>s. handle_query (load_data []) ''Apple summary'' = Inr s)"
proof -
  let ?rs = "[sample_row ''Apple'' 2024 10, sample_row ''Tesla'' 2025 20]"
  have h: "find_year ''compare revenue 2025'' (years (load_data ?rs)) = Some 2025"
    unfolding sample_row_def by code_simp
  note r = handle_query_never_raises[of ?rs "''compare revenue 2025''" "''compare revenue 2025''" 2025]
  have a: "\<exists>r \<in> set ?rs. Fiscal_Year r = 2025"
    using r[THEN conjunct2, rule_format, OF h] by (rule conjunct2[THEN conjunct1])
  have b: "\<exists>s. handle_query (load_data ?rs) ''compare revenue 2025'' = Inr s"
    by (rule r[THEN conjunct1])
  have c: "handle_query (load_data ?rs) ''compare revenue 2025'' =
      Inr (''Total Revenue (USD millions) in 2025:'' @ [CHR 0x0A] @ ''- Tesla: $20M'')"
    unfolding sample_row_def by code_simp
  have d: "\<exists>s. handle_query (load_data []) ''Apple summary'' = Inr s"
    by (rule handle_query_never_raises[of "[]" "''Apple summary''" "''''" 0, THEN conjunct1])
  show ?thesis
    by (intro conjI h a b c d)
qed

end
